theory Spec2Isabelle
  imports Main
begin

section \<open>Time values of the host language\<close>

text \<open>
  The adapter writes a \<^verbatim>\<open>Date\<close> through \<^verbatim>\<open>toISOString\<close> and reads it back
  through \<^verbatim>\<open>Date.parse\<close>. A time value is a number of milliseconds since the epoch.
  The calendar arithmetic follows the language standard: day number, year of a day,
  month and date from the day within the year.
\<close>

definition DaysInYear :: "int \<Rightarrow> int" where
  "DaysInYear y =
     (if y mod 4 \<noteq> 0 then 365
      else if y mod 100 \<noteq> 0 then 366
      else if y mod 400 \<noteq> 0 then 365
      else 366)"

definition DayFromYear :: "int \<Rightarrow> int" where
  "DayFromYear y =
     365 * (y - 1970) + (y - 1969) div 4 - (y - 1901) div 100 + (y - 1601) div 400"

lemma div_succ:
  fixes a n :: int
  assumes "0 < n"
  shows "(a + 1) div n = a div n + (if (a + 1) mod n = 0 then 1 else 0)"
proof -
  have dm: "a div n * n + a mod n = a" by (rule div_mult_mod_eq)
  have r: "0 \<le> a mod n" "a mod n < n" using assms by simp_all
  show ?thesis
  proof (cases "a mod n = n - 1")
    case True
    from dm True have "a + 1 = n + a div n * n" by linarith
    then have "(a + 1) div n = a div n + 1 \<and> (a + 1) mod n = 0"
      using assms by simp
    then show ?thesis by simp
  next
    case False
    have b: "0 \<le> a mod n + 1" "a mod n + 1 < n" "1 < n" using r False by auto
    have "(a + 1) div n = a div n + 1 div n + (a mod n + 1 mod n) div n"
      by (rule div_add1_eq)
    then have "(a + 1) div n = a div n"
      using b by (simp add: div_pos_pos_trivial)
    moreover have "(a + 1) mod n = (a mod n + 1 mod n) mod n"
      by (simp add: mod_add_eq)
    then have "(a + 1) mod n = a mod n + 1"
      using b by (simp add: mod_pos_pos_trivial)
    ultimately show ?thesis using r by simp
  qed
qed

lemma m400: "(y - 1600) mod 400 = y mod 400" for y :: int
  using mod_mult_self1 [of y "-4" 400] by simp

lemma m100: "(y - 1900) mod 100 = y mod 100" for y :: int
  using mod_mult_self1 [of y "-19" 100] by simp

lemma m4: "(y - 1968) mod 4 = y mod 4" for y :: int
  using mod_mult_self1 [of y "-492" 4] by simp

lemma leap_mods:
  fixes y :: int
  shows "y mod 400 = 0 \<Longrightarrow> y mod 100 = 0" and "y mod 100 = 0 \<Longrightarrow> y mod 4 = 0"
proof -
  have "y mod 400 mod 100 = y mod 100" by (rule mod_mod_cancel) simp
  then show "y mod 400 = 0 \<Longrightarrow> y mod 100 = 0" by simp
  have "y mod 100 mod 4 = y mod 4" by (rule mod_mod_cancel) simp
  then show "y mod 100 = 0 \<Longrightarrow> y mod 4 = 0" by simp
qed

lemma DayFromYear_step: "DayFromYear (y + 1) = DayFromYear y + DaysInYear y"
proof -
  have a: "(y - 1968) div 4 = (y - 1969) div 4 + (if y mod 4 = 0 then 1 else 0)"
    using div_succ [of 4 "y - 1969"] m4 [of y] by simp
  have b: "(y - 1900) div 100 = (y - 1901) div 100 + (if y mod 100 = 0 then 1 else 0)"
    using div_succ [of 100 "y - 1901"] m100 [of y] by simp
  have c: "(y - 1600) div 400 = (y - 1601) div 400 + (if y mod 400 = 0 then 1 else 0)"
    using div_succ [of 400 "y - 1601"] m400 [of y] by simp
  have "DayFromYear (y + 1) = 365 * (y - 1969) + (y - 1968) div 4 - (y - 1900) div 100 + (y - 1600) div 400"
    by (simp add: DayFromYear_def)
  also have "\<dots> = DayFromYear y + DaysInYear y"
    unfolding a b c DayFromYear_def DaysInYear_def
    using leap_mods [of y] by auto
  finally show ?thesis .
qed

function yearUp :: "int \<Rightarrow> int \<Rightarrow> int" where
  "yearUp y d = (if DayFromYear (y + 1) \<le> d then yearUp (y + 1) d else y)"
  by pat_completeness auto

termination
proof (relation "measure (\<lambda>(y, d). nat (d + 1 - DayFromYear (y + 1)))")
  show "wf (measure (\<lambda>(y, d). nat (d + 1 - DayFromYear (y + 1))))"
    by simp
next
  fix y d :: int
  assume le: "DayFromYear (y + 1) \<le> d"
  have "DayFromYear (y + 1 + 1) = DayFromYear (y + 1) + DaysInYear (y + 1)"
    by (rule DayFromYear_step)
  moreover have "365 \<le> DaysInYear (y + 1)"
    by (simp add: DaysInYear_def)
  ultimately show "((y + 1, d), (y, d)) \<in> measure (\<lambda>(y, d). nat (d + 1 - DayFromYear (y + 1)))"
    using le by simp
qed

declare yearUp.simps [simp del]

definition YearFromDay :: "int \<Rightarrow> int" where
  "YearFromDay d = yearUp (1969 + (if 0 \<le> d then d div 366 else d div 365)) d"

definition msPerDay :: int where
  "msPerDay = 86400000"

definition maxTime :: int where
  "maxTime = 8640000000000000"

definition Day :: "int \<Rightarrow> int" where
  "Day t = t div msPerDay"

definition TimeWithinDay :: "int \<Rightarrow> int" where
  "TimeWithinDay t = t mod msPerDay"

definition YearFromTime :: "int \<Rightarrow> int" where
  "YearFromTime t = YearFromDay (Day t)"

definition InLeapYear :: "int \<Rightarrow> bool" where
  "InLeapYear t = (DaysInYear (YearFromTime t) = 366)"

definition DayWithinYear :: "int \<Rightarrow> int" where
  "DayWithinYear t = Day t - DayFromYear (YearFromTime t)"

definition monthStart :: "bool \<Rightarrow> int \<Rightarrow> int" where
  "monthStart leap m =
     (let l = (if leap then 1 else 0) in
      if m \<le> 0 then 0 else if m = 1 then 31 else if m = 2 then 59 + l
      else if m = 3 then 90 + l else if m = 4 then 120 + l else if m = 5 then 151 + l
      else if m = 6 then 181 + l else if m = 7 then 212 + l else if m = 8 then 243 + l
      else if m = 9 then 273 + l else if m = 10 then 304 + l else if m = 11 then 334 + l
      else 365 + l)"

definition monthOfDay :: "bool \<Rightarrow> int \<Rightarrow> int" where
  "monthOfDay leap d =
     (if d < monthStart leap 1 then 0 else if d < monthStart leap 2 then 1
      else if d < monthStart leap 3 then 2 else if d < monthStart leap 4 then 3
      else if d < monthStart leap 5 then 4 else if d < monthStart leap 6 then 5
      else if d < monthStart leap 7 then 6 else if d < monthStart leap 8 then 7
      else if d < monthStart leap 9 then 8 else if d < monthStart leap 10 then 9
      else if d < monthStart leap 11 then 10 else 11)"

definition MonthFromTime :: "int \<Rightarrow> int" where
  "MonthFromTime t = monthOfDay (InLeapYear t) (DayWithinYear t)"

definition DateFromTime :: "int \<Rightarrow> int" where
  "DateFromTime t = DayWithinYear t - monthStart (InLeapYear t) (MonthFromTime t) + 1"

definition HourFromTime :: "int \<Rightarrow> int" where
  "HourFromTime t = (t div 3600000) mod 24"

definition MinFromTime :: "int \<Rightarrow> int" where
  "MinFromTime t = (t div 60000) mod 60"

definition SecFromTime :: "int \<Rightarrow> int" where
  "SecFromTime t = (t div 1000) mod 60"

definition msFromTime :: "int \<Rightarrow> int" where
  "msFromTime t = t mod 1000"

definition MakeTime :: "int \<Rightarrow> int \<Rightarrow> int \<Rightarrow> int \<Rightarrow> int" where
  "MakeTime h m s ms = h * 3600000 + m * 60000 + s * 1000 + ms"

definition DaysInMonth :: "int \<Rightarrow> int \<Rightarrow> int" where
  "DaysInMonth y m = monthStart (DaysInYear y = 366) (m + 1) - monthStart (DaysInYear y = 366) m"

definition MakeDay :: "int \<Rightarrow> int \<Rightarrow> int \<Rightarrow> int" where
  "MakeDay y m dt = DayFromYear y + monthStart (DaysInYear y = 366) m + dt - 1"

definition MakeDate :: "int \<Rightarrow> int \<Rightarrow> int" where
  "MakeDate day time = day * msPerDay + time"

definition TimeClip :: "int \<Rightarrow> int option" where
  "TimeClip t = (if \<bar>t\<bar> \<le> maxTime then Some t else None)"

subsection \<open>The date-time format\<close>

text \<open>
  \<^verbatim>\<open>toISOString\<close> prints a time value as \<^verbatim>\<open>YYYY-MM-DDTHH:mm:ss.sssZ\<close>, with a sign and six
  digits for a year outside \<open>0..9999\<close>. \<open>parseISO\<close> reads the strings of that format that
  carry a time and a zone (\<^verbatim>\<open>Z\<close> or an offset) and hold legal field values; on every
  other string it gives \<open>None\<close>, and \<^verbatim>\<open>Date.parse\<close> then asks the host.
\<close>

definition digitChar :: "nat \<Rightarrow> char" where
  "digitChar n = ''0123456789'' ! (n mod 10)"

fun indexOf :: "'a \<Rightarrow> 'a list \<Rightarrow> nat option" where
  "indexOf c [] = None"
| "indexOf c (x # xs) = (if x = c then Some 0 else map_option Suc (indexOf c xs))"

definition digitVal :: "char \<Rightarrow> nat option" where
  "digitVal c = indexOf c ''0123456789''"

definition pad2 :: "nat \<Rightarrow> string" where
  "pad2 n = [digitChar (n div 10), digitChar n]"

definition pad3 :: "nat \<Rightarrow> string" where
  "pad3 n = digitChar (n div 100) # pad2 (n mod 100)"

definition pad4 :: "nat \<Rightarrow> string" where
  "pad4 n = pad2 (n div 100) @ pad2 (n mod 100)"

definition pad6 :: "nat \<Rightarrow> string" where
  "pad6 n = pad2 (n div 10000) @ pad4 (n mod 10000)"

definition yearString :: "int \<Rightarrow> string" where
  "yearString y =
     (if 0 \<le> y \<and> y \<le> 9999 then pad4 (nat y)
      else (if y < 0 then ''-'' else ''+'') @ pad6 (nat \<bar>y\<bar>))"

definition toISOString :: "int \<Rightarrow> string" where
  "toISOString t =
     yearString (YearFromTime t) @ ''-'' @ pad2 (nat (MonthFromTime t + 1)) @ ''-'' @
     pad2 (nat (DateFromTime t)) @ ''T'' @ pad2 (nat (HourFromTime t)) @ '':'' @
     pad2 (nat (MinFromTime t)) @ '':'' @ pad2 (nat (SecFromTime t)) @ ''.'' @
     pad3 (nat (msFromTime t)) @ ''Z''"

fun read1 :: "string \<Rightarrow> (nat \<times> string) option" where
  "read1 [] = None"
| "read1 (c # r) = map_option (\<lambda>v. (v, r)) (digitVal c)"

definition read2 :: "string \<Rightarrow> (nat \<times> string) option" where
  "read2 s = Option.bind (read1 s) (\<lambda>(x, r). Option.bind (read1 r) (\<lambda>(y, r'). Some (10 * x + y, r')))"

definition read3 :: "string \<Rightarrow> (nat \<times> string) option" where
  "read3 s = Option.bind (read1 s) (\<lambda>(x, r). Option.bind (read2 r) (\<lambda>(y, r'). Some (100 * x + y, r')))"

definition read4 :: "string \<Rightarrow> (nat \<times> string) option" where
  "read4 s = Option.bind (read2 s) (\<lambda>(x, r). Option.bind (read2 r) (\<lambda>(y, r'). Some (100 * x + y, r')))"

definition read6 :: "string \<Rightarrow> (nat \<times> string) option" where
  "read6 s = Option.bind (read2 s) (\<lambda>(x, r). Option.bind (read4 r) (\<lambda>(y, r'). Some (10000 * x + y, r')))"

fun expect :: "char \<Rightarrow> string \<Rightarrow> string option" where
  "expect c [] = None"
| "expect c (x # r) = (if x = c then Some r else None)"

fun parseYear :: "string \<Rightarrow> (int \<times> string) option" where
  "parseYear [] = None"
| "parseYear (c # r) =
     (if c = CHR ''+'' then map_option (\<lambda>(n, r'). (int n, r')) (read6 r)
      else if c = CHR ''-'' then
        Option.bind (read6 r) (\<lambda>(n, r'). if n = 0 then None else Some (- int n, r'))
      else map_option (\<lambda>(n, r'). (int n, r')) (read4 (c # r)))"

definition parseSeconds :: "string \<Rightarrow> ((nat \<times> nat) \<times> string) option" where
  "parseSeconds s =
     (case expect CHR '':'' s of
        None \<Rightarrow> Some ((0, 0), s)
      | Some r \<Rightarrow>
          Option.bind (read2 r) (\<lambda>(ss, r').
            case expect CHR ''.'' r' of
              None \<Rightarrow> Some ((ss, 0), r')
            | Some r'' \<Rightarrow> map_option (\<lambda>(ms, r3). ((ss, ms), r3)) (read3 r'')))"

fun parseZone :: "string \<Rightarrow> int option" where
  "parseZone [] = None"
| "parseZone (c # r) =
     (if c = CHR ''Z'' then (if r = [] then Some 0 else None)
      else if c = CHR ''+'' \<or> c = CHR ''-'' then
        Option.bind (read2 r) (\<lambda>(oh, r1).
        Option.bind (expect CHR '':'' r1) (\<lambda>r2.
        Option.bind (read2 r2) (\<lambda>(om, r3).
          if r3 = [] \<and> oh \<le> 23 \<and> om \<le> 59
          then Some ((if c = CHR ''-'' then - 1 else 1) * int (oh * 60 + om))
          else None)))
      else None)"

definition parseISO :: "string \<Rightarrow> int option" where
  "parseISO s =
     Option.bind (parseYear s) (\<lambda>(y, s1).
     Option.bind (expect CHR ''-'' s1) (\<lambda>s2.
     Option.bind (read2 s2) (\<lambda>(mo, s3).
     Option.bind (expect CHR ''-'' s3) (\<lambda>s4.
     Option.bind (read2 s4) (\<lambda>(dd, s5).
     Option.bind (expect CHR ''T'' s5) (\<lambda>s6.
     Option.bind (read2 s6) (\<lambda>(hh, s7).
     Option.bind (expect CHR '':'' s7) (\<lambda>s8.
     Option.bind (read2 s8) (\<lambda>(mi, s9).
     Option.bind (parseSeconds s9) (\<lambda>((ss, ms), s10).
     Option.bind (parseZone s10) (\<lambda>off.
       if 1 \<le> mo \<and> mo \<le> 12 \<and> 1 \<le> dd \<and> int dd \<le> DaysInMonth y (int mo - 1) \<and>
          hh \<le> 23 \<and> mi \<le> 59 \<and> ss \<le> 59
       then TimeClip (MakeDate (MakeDay y (int mo - 1) (int dd))
                        (MakeTime (int hh) (int mi) (int ss) (int ms)) - off * 60000)
       else None)))))))))))"

subsection \<open>The pattern of the source\<close>

text \<open>
  Regular expressions as far as \<^verbatim>\<open>isoDateRE\<close> needs them: a character class, one or more
  characters of a class, sequence and alternative. \<open>rxMatch r s\<close> lists what is left of
  \<open>s\<close> after each way \<open>r\<close> matches a prefix of it; \<open>rxTest\<close> is the unanchored
  \<^verbatim>\<open>test\<close>, a match starting anywhere. \<open>isoDateRE\<close> has the three alternatives of the
  source: with seconds and a fraction, with seconds, and without seconds.
\<close>

datatype rx = Eps | Cls string | Many string | Seq rx rx | Alt rx rx

definition inClass :: "string \<Rightarrow> char \<Rightarrow> bool" where
  "inClass cs c = (c \<in> set cs)"

fun many :: "string \<Rightarrow> string \<Rightarrow> string list" where
  "many cs [] = []"
| "many cs (c # r) = (if inClass cs c then r # many cs r else [])"

fun rxMatch :: "rx \<Rightarrow> string \<Rightarrow> string list" where
  "rxMatch Eps s = [s]"
| "rxMatch (Cls cs) [] = []"
| "rxMatch (Cls cs) (c # r) = (if inClass cs c then [r] else [])"
| "rxMatch (Many cs) s = many cs s"
| "rxMatch (Seq a b) s = concat (map (rxMatch b) (rxMatch a s))"
| "rxMatch (Alt a b) s = rxMatch a s @ rxMatch b s"

fun rxTest :: "rx \<Rightarrow> string \<Rightarrow> bool" where
  "rxTest r [] = (rxMatch r [] \<noteq> [])"
| "rxTest r (c # s) = (rxMatch r (c # s) \<noteq> [] \<or> rxTest r s)"

fun seqs :: "rx list \<Rightarrow> rx" where
  "seqs [] = Eps"
| "seqs (x # xs) = Seq x (seqs xs)"

definition digits :: string where
  "digits = ''0123456789''"

definition rxDigit :: rx where
  "rxDigit = Cls digits"

definition rxChar :: "char \<Rightarrow> rx" where
  "rxChar c = Cls [c]"

definition rxDateTime :: rx where
  "rxDateTime = seqs
     [rxDigit, rxDigit, rxDigit, rxDigit, rxChar CHR ''-'', Cls ''01'', rxDigit, rxChar CHR ''-'',
      Cls ''0123'', rxDigit, rxChar CHR ''T'', Cls ''012'', rxDigit, rxChar CHR '':'',
      Cls ''012345'', rxDigit]"

definition rxSeconds :: rx where
  "rxSeconds = seqs [rxChar CHR '':'', Cls ''012345'', rxDigit]"

definition rxFraction :: rx where
  "rxFraction = Seq (rxChar CHR ''.'') (Many digits)"

definition rxZone :: rx where
  "rxZone = Alt (seqs [Cls ''+-'', Cls ''012'', rxDigit, rxChar CHR '':'', Cls ''012345'', rxDigit])
                (rxChar CHR ''Z'')"

definition isoDateRE :: rx where
  "isoDateRE =
     Alt (Seq rxDateTime (Seq rxSeconds (Seq rxFraction rxZone)))
         (Alt (Seq rxDateTime (Seq rxSeconds rxZone))
              (Seq rxDateTime rxZone))"

section \<open>Values and the hash codec\<close>

text \<open>
  Field values of an entity record: strings, \<^verbatim>\<open>Date\<close> objects (time value, or none for
  an invalid date), \<^verbatim>\<open>null\<close> and \<^verbatim>\<open>undefined\<close>. A record maps field names to values;
  a field that is not an own property is absent from the map.
\<close>

datatype jsval = JStr string | JDate "int option" | JNull | JUndef

type_synonym obj = "string \<rightharpoonup> jsval"

text \<open>
  What the language leaves to the host: how \<^verbatim>\<open>Date.parse\<close> reads a string that is not in
  the standard date-time format, and how a \<^verbatim>\<open>Date\<close> prints when it is concatenated to a
  string. Every statement below holds for every host.
\<close>

record host =
  hostParse :: "string \<Rightarrow> int option"
  dateToString :: "int option \<Rightarrow> string"

definition Date_parse :: "host \<Rightarrow> string \<Rightarrow> int option" where
  "Date_parse H s =
     (case parseISO s of Some t \<Rightarrow> Some t | None \<Rightarrow> Option.bind (hostParse H s) TimeClip)"

definition ToString :: "host \<Rightarrow> jsval \<Rightarrow> string" where
  "ToString H v =
     (case v of JStr s \<Rightarrow> s | JDate d \<Rightarrow> dateToString H d
      | JNull \<Rightarrow> ''null'' | JUndef \<Rightarrow> ''undefined'')"

definition truthy :: "jsval \<Rightarrow> bool" where
  "truthy v = (case v of JStr s \<Rightarrow> s \<noteq> [] | JDate d \<Rightarrow> True | JNull \<Rightarrow> False | JUndef \<Rightarrow> False)"

text \<open>Strict equality \<^verbatim>\<open>===\<close>; two \<^verbatim>\<open>Date\<close> objects built apart are never identical.\<close>

fun strictEq :: "jsval \<Rightarrow> jsval \<Rightarrow> bool" where
  "strictEq (JStr a) (JStr b) = (a = b)"
| "strictEq JNull JNull = True"
| "strictEq JUndef JUndef = True"
| "strictEq a b = False"

text \<open>Reading a property: \<^verbatim>\<open>undefined\<close> when the record has no such field.\<close>

definition getField :: "obj \<Rightarrow> string \<Rightarrow> jsval" where
  "getField object k = (case object k of None \<Rightarrow> JUndef | Some v \<Rightarrow> v)"

text \<open>\<^verbatim>\<open>isDate\<close> of the source: a non-empty value that the pattern finds and that parses.\<close>

definition isDate :: "host \<Rightarrow> string \<Rightarrow> bool" where
  "isDate H value = (value \<noteq> [] \<and> rxTest isoDateRE value \<and> Date_parse H value \<noteq> None)"

text \<open>The two field conversions of the codec: before the hash write, after the hash read.\<close>

definition toField :: "jsval \<Rightarrow> jsval" where
  "toField val = (case val of JDate (Some t) \<Rightarrow> JStr (toISOString t) | _ \<Rightarrow> val)"

definition fromField :: "host \<Rightarrow> string \<Rightarrow> jsval" where
  "fromField H val = (if isDate H val then JDate (Date_parse H val) else JStr val)"

section \<open>The key-value backend\<close>

text \<open>
  The store holds, under each key, a string or a hash of string fields. The commands
  are the ones the adapter calls on its client. A command on a key of the other type
  fails, and so does a hash command that is sent without any field.
\<close>

datatype rval = RStr string | RHash "string \<rightharpoonup> string"

type_synonym store = "string \<rightharpoonup> rval"

datatype error = WrongType | WrongArity | InvalidTime

type_synonym 'a io = "store \<Rightarrow> (error + 'a) \<times> store"

definition ret :: "'a \<Rightarrow> 'a io" where
  "ret x = (\<lambda>s. (Inr x, s))"

definition throw :: "error \<Rightarrow> 'a io" where
  "throw e = (\<lambda>s. (Inl e, s))"

definition await :: "'a io \<Rightarrow> ('a \<Rightarrow> 'b io) \<Rightarrow> 'b io" where
  "await m f = (\<lambda>s. case m s of (Inl e, s') \<Rightarrow> (Inl e, s') | (Inr x, s') \<Rightarrow> f x s')"

text \<open>An argument sent to the backend is a string; the client sends nothing for
  \<^verbatim>\<open>null\<close> and \<^verbatim>\<open>undefined\<close>.\<close>

definition toArg :: "host \<Rightarrow> jsval \<Rightarrow> string" where
  "toArg H v = (case v of JNull \<Rightarrow> [] | JUndef \<Rightarrow> [] | _ \<Rightarrow> ToString H v)"

definition client_set :: "string \<Rightarrow> string \<Rightarrow> unit io" where
  "client_set key v = (\<lambda>s. (Inr (), s(key \<mapsto> RStr v)))"

definition client_get :: "string \<Rightarrow> string option io" where
  "client_get key =
     (\<lambda>s. case s key of
        None \<Rightarrow> (Inr None, s)
      | Some (RStr v) \<Rightarrow> (Inr (Some v), s)
      | Some (RHash h) \<Rightarrow> (Inl WrongType, s))"

definition client_del :: "string list \<Rightarrow> unit io" where
  "client_del keys = (\<lambda>s. (Inr (), fold (\<lambda>k m. m(k := None)) keys s))"

definition client_hset :: "host \<Rightarrow> string \<Rightarrow> obj \<Rightarrow> unit io" where
  "client_hset H key object =
     (\<lambda>s. if object = Map.empty then (Inl WrongArity, s)
        else case s key of
          None \<Rightarrow> (Inr (), s(key \<mapsto> RHash (map_option (toArg H) \<circ> object)))
        | Some (RHash h) \<Rightarrow> (Inr (), s(key \<mapsto> RHash (h ++ (map_option (toArg H) \<circ> object))))
        | Some (RStr v) \<Rightarrow> (Inl WrongType, s))"

definition client_hgetall :: "string \<Rightarrow> (string \<rightharpoonup> string) io" where
  "client_hgetall key =
     (\<lambda>s. case s key of
        None \<Rightarrow> (Inr Map.empty, s)
      | Some (RHash h) \<Rightarrow> (Inr h, s)
      | Some (RStr v) \<Rightarrow> (Inl WrongType, s))"

definition client_hdel :: "string \<Rightarrow> string list \<Rightarrow> unit io" where
  "client_hdel key names =
     (\<lambda>s. if names = [] then (Inl WrongArity, s)
        else case s key of
          None \<Rightarrow> (Inr (), s)
        | Some (RHash h) \<Rightarrow>
            (let h' = fold (\<lambda>k m. m(k := None)) names h
             in (Inr (), if h' = Map.empty then s(key := None) else s(key \<mapsto> RHash h')))
        | Some (RStr v) \<Rightarrow> (Inl WrongType, s))"

section \<open>The adapter\<close>

record options =
  baseKeyPrefix :: "string option"
  userKeyPrefix :: "string option"
  accountKeyPrefix :: "string option"
  accountByUserIdPrefix :: "string option"
  sessionKeyPrefix :: "string option"
  sessionByUserIdPrefix :: "string option"
  userByEmailKeyPrefix :: "string option"
  verificationKeyPrefix :: "string option"

definition defaultOptions :: options where
  "defaultOptions =
     \<lparr>baseKeyPrefix = Some [], userKeyPrefix = Some ''user:'',
      accountKeyPrefix = Some ''account:'', accountByUserIdPrefix = Some ''account:user:'',
      sessionKeyPrefix = Some ''session:'', sessionByUserIdPrefix = Some ''session:user:'',
      userByEmailKeyPrefix = Some ''user:email:'', verificationKeyPrefix = Some ''verification:''\<rparr>"

text \<open>An option that is not given is \<open>None\<close>; the adapter called without options gets
  \<open>noOptions\<close>.\<close>

definition noOptions :: options where
  "noOptions =
     \<lparr>baseKeyPrefix = None, userKeyPrefix = None, accountKeyPrefix = None,
      accountByUserIdPrefix = None, sessionKeyPrefix = None, sessionByUserIdPrefix = None,
      userByEmailKeyPrefix = None, verificationKeyPrefix = None\<rparr>"

definition orDefault :: "(options \<Rightarrow> string option) \<Rightarrow> options \<Rightarrow> string option" where
  "orDefault f opts = (case f opts of None \<Rightarrow> f defaultOptions | Some v \<Rightarrow> Some v)"

definition currentOptions :: "options \<Rightarrow> options" where
  "currentOptions opts =
     \<lparr>baseKeyPrefix = orDefault baseKeyPrefix opts, userKeyPrefix = orDefault userKeyPrefix opts,
      accountKeyPrefix = orDefault accountKeyPrefix opts,
      accountByUserIdPrefix = orDefault accountByUserIdPrefix opts,
      sessionKeyPrefix = orDefault sessionKeyPrefix opts,
      sessionByUserIdPrefix = orDefault sessionByUserIdPrefix opts,
      userByEmailKeyPrefix = orDefault userByEmailKeyPrefix opts,
      verificationKeyPrefix = orDefault verificationKeyPrefix opts\<rparr>"

definition prefixed :: "options \<Rightarrow> (options \<Rightarrow> string option) \<Rightarrow> string" where
  "prefixed opts f =
     (case baseKeyPrefix (currentOptions opts) of None \<Rightarrow> [] | Some b \<Rightarrow> b) @
     (case f (currentOptions opts) of None \<Rightarrow> ''undefined'' | Some p \<Rightarrow> p)"

definition getUserByEmailKey :: "options \<Rightarrow> string \<Rightarrow> string" where
  "getUserByEmailKey opts email = prefixed opts userByEmailKeyPrefix @ email"

definition getUserKey :: "options \<Rightarrow> string \<Rightarrow> string" where
  "getUserKey opts userId = prefixed opts userKeyPrefix @ userId"

definition getAccountKey :: "options \<Rightarrow> string \<Rightarrow> string" where
  "getAccountKey opts accountId = prefixed opts accountKeyPrefix @ accountId"

definition getAccountByUserIdKey :: "options \<Rightarrow> string \<Rightarrow> string" where
  "getAccountByUserIdKey opts userId = prefixed opts accountByUserIdPrefix @ userId"

definition getAccountId :: "string \<Rightarrow> string \<Rightarrow> string" where
  "getAccountId providerAccountId provider = provider @ '':'' @ providerAccountId"

definition getSessionKey :: "options \<Rightarrow> string \<Rightarrow> string" where
  "getSessionKey opts sessionId = prefixed opts sessionKeyPrefix @ sessionId"

definition getSessionByUserIdKey :: "options \<Rightarrow> string \<Rightarrow> string" where
  "getSessionByUserIdKey opts userId = prefixed opts sessionByUserIdPrefix @ userId"

definition getVerificationKey :: "options \<Rightarrow> string \<Rightarrow> string" where
  "getVerificationKey opts tokenId = prefixed opts verificationKeyPrefix @ tokenId"

text \<open>
  Both reducers of the codec build their result on a fresh object literal, by the
  assignment \<^verbatim>\<open>acc[key] = ...\<close> for each entry of their input. On such an object the
  name \<^verbatim>\<open>__proto__\<close> is the inherited accessor: assigning to it creates no own
  property (a string or \<^verbatim>\<open>undefined\<close> is ignored, an object or \<^verbatim>\<open>null\<close> becomes the
  prototype), so an entry of that name is left out of the result. Every other name
  becomes an own property holding the converted value.
\<close>

definition assignEntries :: "('a \<Rightarrow> jsval) \<Rightarrow> (string \<rightharpoonup> 'a) \<Rightarrow> obj" where
  "assignEntries f object =
     (\<lambda>key. if key = ''__proto__'' then None else map_option f (object key))"

text \<open>\<^verbatim>\<open>toISOString\<close> raises on an invalid date, whatever the name of its field, before
  anything is sent.\<close>

definition setObjectAsHash :: "host \<Rightarrow> string \<Rightarrow> obj \<Rightarrow> unit io" where
  "setObjectAsHash H key object =
     (if JDate None \<in> ran object then throw InvalidTime
      else client_hset H key (assignEntries toField object))"

definition isEmpty :: "('k \<rightharpoonup> 'v) \<Rightarrow> bool" where
  "isEmpty object = (object = Map.empty)"

text \<open>The client hands over every field of the hash as an own property, so the
  emptiness test sees a field named \<^verbatim>\<open>__proto__\<close>; the reducer then leaves it out.\<close>

definition loadObjectFromHash :: "host \<Rightarrow> string \<Rightarrow> obj option io" where
  "loadObjectFromHash H key =
     await (client_hgetall key) (\<lambda>object.
       if isEmpty object then ret None
       else ret (Some (assignEntries (fromField H) object)))"

definition setUser :: "host \<Rightarrow> options \<Rightarrow> string \<Rightarrow> obj \<Rightarrow> obj io" where
  "setUser H opts ident user =
     await (setObjectAsHash H (getUserKey opts ident) user) (\<lambda>_.
       if truthy (getField user ''email'')
       then await (client_set (getUserByEmailKey opts (ToString H (getField user ''email''))) ident)
              (\<lambda>_. ret user)
       else ret user)"

definition getUser :: "host \<Rightarrow> options \<Rightarrow> string \<Rightarrow> obj option io" where
  "getUser H opts ident =
     await (loadObjectFromHash H (getUserKey opts ident)) (\<lambda>user.
       case user of None \<Rightarrow> ret None | Some u \<Rightarrow> ret (Some u))"

definition setAccount :: "host \<Rightarrow> options \<Rightarrow> string \<Rightarrow> obj \<Rightarrow> obj io" where
  "setAccount H opts ident account =
     (let accountKey = getAccountKey opts ident in
      await (setObjectAsHash H accountKey account) (\<lambda>_.
      await (client_set (getAccountByUserIdKey opts (ToString H (getField account ''userId'')))
               accountKey) (\<lambda>_.
      ret account)))"

definition getAccount :: "host \<Rightarrow> options \<Rightarrow> string \<Rightarrow> obj option io" where
  "getAccount H opts ident =
     await (loadObjectFromHash H (getAccountKey opts ident)) (\<lambda>account.
       case account of None \<Rightarrow> ret None | Some a \<Rightarrow> ret (Some a))"

text \<open>The delete helpers answer \<^verbatim>\<open>null\<close> when there is nothing to delete and
  \<^verbatim>\<open>undefined\<close> after a deletion. \<^verbatim>\<open>deleteAccount\<close> sends the hash-field delete with
  the key alone.\<close>

definition deleteAccount :: "host \<Rightarrow> options \<Rightarrow> string \<Rightarrow> jsval io" where
  "deleteAccount H opts ident =
     (let key = getAccountKey opts ident in
      await (loadObjectFromHash H key) (\<lambda>account.
        case account of
          None \<Rightarrow> ret JNull
        | Some a \<Rightarrow>
            await (client_hdel key []) (\<lambda>_.
            await (client_del [getAccountByUserIdKey opts (ToString H (getField a ''userId''))]) (\<lambda>_.
            ret JUndef))))"

definition setSession :: "host \<Rightarrow> options \<Rightarrow> string \<Rightarrow> obj \<Rightarrow> obj io" where
  "setSession H opts ident session =
     (let sessionKey = getSessionKey opts ident in
      await (setObjectAsHash H sessionKey session) (\<lambda>_.
      await (client_set (getSessionByUserIdKey opts (ToString H (getField session ''userId'')))
               sessionKey) (\<lambda>_.
      ret session)))"

definition getSession :: "host \<Rightarrow> options \<Rightarrow> string \<Rightarrow> obj option io" where
  "getSession H opts ident =
     await (loadObjectFromHash H (getSessionKey opts ident)) (\<lambda>session.
       case session of
         None \<Rightarrow> ret None
       | Some se \<Rightarrow> ret (Some ([''id'' \<mapsto> getField se ''id''] ++ se)))"

definition deleteSession :: "host \<Rightarrow> options \<Rightarrow> string \<Rightarrow> jsval io" where
  "deleteSession H opts sessionToken =
     await (getSession H opts sessionToken) (\<lambda>session.
       case session of
         None \<Rightarrow> ret JNull
       | Some se \<Rightarrow>
           (let key = getSessionKey opts sessionToken in
            await (client_del [key]) (\<lambda>_.
            await (client_del [getSessionByUserIdKey opts (ToString H (getField se ''userId''))]) (\<lambda>_.
            ret JUndef))))"

definition setVerificationToken :: "host \<Rightarrow> options \<Rightarrow> string \<Rightarrow> obj \<Rightarrow> obj io" where
  "setVerificationToken H opts ident token =
     (let tokenKey = getVerificationKey opts ident in
      await (setObjectAsHash H tokenKey token) (\<lambda>_. ret token))"

definition getVerificationToken :: "host \<Rightarrow> options \<Rightarrow> string \<Rightarrow> obj option io" where
  "getVerificationToken H opts ident =
     (let tokenKey = getVerificationKey opts ident in
      await (loadObjectFromHash H tokenKey) (\<lambda>token.
        case token of
          None \<Rightarrow> ret None
        | Some tk \<Rightarrow> ret (Some ([''identifier'' \<mapsto> getField tk ''identifier''] ++ tk))))"

definition deleteVerificationToken :: "options \<Rightarrow> string \<Rightarrow> jsval io" where
  "deleteVerificationToken opts ident =
     (let tokenKey = getVerificationKey opts ident in
      await (client_del [tokenKey]) (\<lambda>_. ret JUndef))"

text \<open>
  The methods of the adapter. \<^verbatim>\<open>createUser\<close> takes the identifier that \<^verbatim>\<open>uuid()\<close>
  drew as its argument \<open>ident\<close>. Where the source hands a field of a record to a parameter
  it types as a string, the model reads the field with \<open>ToString\<close>, the identity on
  strings.
\<close>

definition createUser :: "host \<Rightarrow> options \<Rightarrow> string \<Rightarrow> obj \<Rightarrow> obj io" where
  "createUser H opts ident user = setUser H opts ident (user(''id'' \<mapsto> JStr ident))"

definition getUserByEmail :: "host \<Rightarrow> options \<Rightarrow> string \<Rightarrow> obj option io" where
  "getUserByEmail H opts email =
     await (client_get (getUserByEmailKey opts email)) (\<lambda>userId.
       case userId of
         None \<Rightarrow> ret None
       | Some uid \<Rightarrow> if uid = [] then ret None else getUser H opts uid)"

definition getUserByAccount :: "host \<Rightarrow> options \<Rightarrow> string \<Rightarrow> string \<Rightarrow> obj option io" where
  "getUserByAccount H opts providerAccountId provider =
     await (getAccount H opts (getAccountId providerAccountId provider)) (\<lambda>account.
       case account of
         None \<Rightarrow> ret None
       | Some a \<Rightarrow> getUser H opts (ToString H (getField a ''userId'')))"

definition updateUser :: "host \<Rightarrow> options \<Rightarrow> obj \<Rightarrow> obj io" where
  "updateUser H opts updates =
     (let userId = ToString H (getField updates ''id'') in
      await (getUser H opts userId) (\<lambda>user.
        setUser H opts userId ((case user of None \<Rightarrow> Map.empty | Some u \<Rightarrow> u) ++ updates)))"

definition deleteUser :: "host \<Rightarrow> options \<Rightarrow> string \<Rightarrow> jsval io" where
  "deleteUser H opts userId =
     await (getUser H opts userId) (\<lambda>user.
       case user of
         None \<Rightarrow> ret JNull
       | Some u \<Rightarrow>
           await (client_get (getAccountByUserIdKey opts userId)) (\<lambda>accountKey.
           await (client_get (getSessionByUserIdKey opts userId)) (\<lambda>sessionKey.
           await (client_del
                    [getUserByEmailKey opts (ToString H (getField u ''email'')),
                     getAccountByUserIdKey opts userId,
                     getSessionByUserIdKey opts userId]) (\<lambda>_.
           await (case sessionKey of
                    None \<Rightarrow> ret ()
                  | Some k \<Rightarrow> if k = [] then ret () else client_del [k]) (\<lambda>_.
           await (case accountKey of
                    None \<Rightarrow> ret ()
                  | Some k \<Rightarrow> if k = [] then ret () else client_del [k]) (\<lambda>_.
           await (client_del [getUserKey opts userId]) (\<lambda>_.
           ret JUndef)))))))"

definition linkAccount :: "host \<Rightarrow> options \<Rightarrow> obj \<Rightarrow> obj io" where
  "linkAccount H opts account =
     (let ident = getAccountId (ToString H (getField account ''providerAccountId''))
                 (ToString H (getField account ''provider''))
      in setAccount H opts ident (account(''id'' \<mapsto> JStr ident)))"

definition unlinkAccount :: "host \<Rightarrow> options \<Rightarrow> string \<Rightarrow> string \<Rightarrow> jsval io" where
  "unlinkAccount H opts providerAccountId provider =
     (let ident = getAccountId providerAccountId provider in
      await (deleteAccount H opts ident) (\<lambda>_. ret JUndef))"

definition createSession :: "host \<Rightarrow> options \<Rightarrow> obj \<Rightarrow> obj io" where
  "createSession H opts session =
     (let ident = getField session ''sessionToken'' in
      setSession H opts (ToString H ident) (session(''id'' \<mapsto> ident)))"

definition getSessionAndUser :: "host \<Rightarrow> options \<Rightarrow> string \<Rightarrow> (obj \<times> obj) option io" where
  "getSessionAndUser H opts sessionToken =
     await (getSession H opts sessionToken) (\<lambda>session.
       case session of
         None \<Rightarrow> ret None
       | Some se \<Rightarrow>
           await (getUser H opts (ToString H (getField se ''userId''))) (\<lambda>user.
             case user of None \<Rightarrow> ret None | Some u \<Rightarrow> ret (Some (se, u))))"

definition updateSession :: "host \<Rightarrow> options \<Rightarrow> obj \<Rightarrow> obj option io" where
  "updateSession H opts updates =
     (let ident = ToString H (getField updates ''sessionToken'') in
      await (getSession H opts ident) (\<lambda>session.
        case session of
          None \<Rightarrow> ret None
        | Some se \<Rightarrow> await (setSession H opts ident (se ++ updates)) (\<lambda>r. ret (Some r))))"

definition createVerificationToken :: "host \<Rightarrow> options \<Rightarrow> obj \<Rightarrow> obj io" where
  "createVerificationToken H opts verificationToken =
     (let ident = ToString H (getField verificationToken ''identifier'') in
      await (setVerificationToken H opts ident verificationToken) (\<lambda>_. ret verificationToken))"

definition useVerificationToken :: "host \<Rightarrow> options \<Rightarrow> obj \<Rightarrow> obj option io" where
  "useVerificationToken H opts verificationToken =
     (let ident = ToString H (getField verificationToken ''identifier'') in
      await (getVerificationToken H opts ident) (\<lambda>token.
        case token of
          None \<Rightarrow> ret None
        | Some tk \<Rightarrow>
            if \<not> strictEq (getField verificationToken ''token'') (getField tk ''token'')
            then ret None
            else await (deleteVerificationToken opts ident) (\<lambda>_. ret (Some tk))))"

section \<open>Concrete inputs\<close>

text \<open>A host that reads no other date format than the standard one.\<close>

definition strictHost :: host where
  "strictHost = \<lparr>hostParse = (\<lambda>s. None), dateToString = (\<lambda>d. ''Invalid Date'')\<rparr>"

text \<open>A field value that is a string or a valid time value.\<close>

definition isStringOrTimestamp :: "jsval \<Rightarrow> bool" where
  "isStringOrTimestamp v =
     (case v of JStr s \<Rightarrow> True | JDate (Some t) \<Rightarrow> \<bar>t\<bar> \<le> maxTime | _ \<Rightarrow> False)"

text \<open>A store with one user, an account record and a session record, used as concrete inputs.\<close>

definition exampleStore :: store where
  "exampleStore =
     [''user:u1'' \<mapsto> RHash [''id'' \<mapsto> ''u1'', ''email'' \<mapsto> ''a@x.com''],
      ''user:email:a@x.com'' \<mapsto> RStr ''u1'']"

definition exampleAccount :: obj where
  "exampleAccount =
     [''provider'' \<mapsto> JStr ''github'', ''providerAccountId'' \<mapsto> JStr ''42'',
      ''userId'' \<mapsto> JStr ''u1'']"

definition exampleSession :: obj where
  "exampleSession =
     [''sessionToken'' \<mapsto> JStr ''tok1'', ''userId'' \<mapsto> JStr ''u1'',
      ''expires'' \<mapsto> JDate (Some 1640995200000)]"

text \<open>The shape of the identifiers that \<^verbatim>\<open>uuid()\<close> draws: hexadecimal digits in groups of 8, 4, 4, 4 and 12.\<close>

definition isUuid :: "string \<Rightarrow> bool" where
  "isUuid s =
     list_all2 (\<lambda>c p. if p = CHR ''-'' then c = CHR ''-'' else c \<in> set ''0123456789abcdef'')
       s ''xxxxxxxx-xxxx-xxxx-xxxx-xxxxxxxxxxxx''"

definition exampleUser :: obj where
  "exampleUser = [''name'' \<mapsto> JStr ''A'', ''email'' \<mapsto> JStr ''a@x.com'', ''emailVerified'' \<mapsto> JNull]"

definition exampleTokens :: store where
  "exampleTokens =
     [''verification:a@x.com'' \<mapsto>
        RHash [''identifier'' \<mapsto> ''a@x.com'', ''token'' \<mapsto> ''abc123'',
               ''expires'' \<mapsto> ''2022-01-01T00:00:00.000Z'']]"

definition exampleToken :: obj where
  "exampleToken = [''identifier'' \<mapsto> JStr ''a@x.com'', ''token'' \<mapsto> JStr ''abc123'']"

definition wrongToken :: obj where
  "wrongToken = [''identifier'' \<mapsto> JStr ''a@x.com'', ''token'' \<mapsto> JStr ''zzz'']"

text \<open>A verification token whose token value is itself a date-time string, the
  request that presents this value, and the store after the token was created.\<close>

definition timestampToken :: obj where
  "timestampToken =
     [''identifier'' \<mapsto> JStr ''a@x.com'', ''token'' \<mapsto> JStr ''2022-01-01T00:00:00Z'',
      ''expires'' \<mapsto> JDate (Some 1640995200000)]"

definition timestampRequest :: obj where
  "timestampRequest =
     [''identifier'' \<mapsto> JStr ''a@x.com'', ''token'' \<mapsto> JStr ''2022-01-01T00:00:00Z'']"

definition timestampTokens :: store where
  "timestampTokens =
     [''verification:a@x.com'' \<mapsto>
        RHash [''identifier'' \<mapsto> ''a@x.com'', ''token'' \<mapsto> ''2022-01-01T00:00:00Z'',
               ''expires'' \<mapsto> ''2022-01-01T00:00:00.000Z'']]"

text \<open>The store after \<open>linkAccount\<close> of the example account.\<close>

definition linkedStore :: store where
  "linkedStore = snd (linkAccount strictHost noOptions exampleAccount exampleStore)"

definition storedUser :: store where
  "storedUser =
     [''user:1'' \<mapsto> RHash [''id'' \<mapsto> ''1'', ''name'' \<mapsto> ''A'', ''email'' \<mapsto> ''a@x.com''],
      ''user:email:a@x.com'' \<mapsto> RStr ''1'']"

text \<open>A store with one session, and an update record that moves its expiry by a day.\<close>

definition sessionStore :: store where
  "sessionStore =
     [''session:tok1'' \<mapsto>
        RHash [''id'' \<mapsto> ''tok1'', ''sessionToken'' \<mapsto> ''tok1'', ''userId'' \<mapsto> ''u1'',
               ''expires'' \<mapsto> ''2022-01-01T00:00:00.000Z''],
      ''session:user:u1'' \<mapsto> RStr ''session:tok1'']"

definition sessionUpdate :: obj where
  "sessionUpdate = [''sessionToken'' \<mapsto> JStr ''tok1'', ''expires'' \<mapsto> JDate (Some 1641081600000)]"

section \<open>Facts about time values, the date format and the pattern\<close>

lemma div_bounds:
  fixes x n :: int
  assumes "0 < n"
  shows "n * (x div n) \<le> x" and "x < n * (x div n) + n"
proof -
  have e: "n * (x div n) + x mod n = x" by (rule mult_div_mod_eq)
  have "0 \<le> x mod n" "x mod n < n" using assms by simp_all
  with e show "n * (x div n) \<le> x" and "x < n * (x div n) + n" by linarith+
qed

lemma DayFromYear_linear:
  "146097 * (y - 1970) - 1000 \<le> 400 * DayFromYear y"
  "400 * DayFromYear y \<le> 146097 * (y - 1970) + 1000"
proof -
  define a where "a = (y - 1969) div 4"
  define b where "b = (y - 1901) div 100"
  define c where "c = (y - 1601) div 400"
  have fa: "4 * a \<le> y - 1969" "y - 1969 < 4 * a + 4"
    using div_bounds [of 4 "y - 1969"] by (simp_all add: a_def)
  have fb: "100 * b \<le> y - 1901" "y - 1901 < 100 * b + 100"
    using div_bounds [of 100 "y - 1901"] by (simp_all add: b_def)
  have fc: "400 * c \<le> y - 1601" "y - 1601 < 400 * c + 400"
    using div_bounds [of 400 "y - 1601"] by (simp_all add: c_def)
  have e: "DayFromYear y = 365 * (y - 1970) + a - b + c"
    by (simp add: DayFromYear_def a_def b_def c_def)
  show "146097 * (y - 1970) - 1000 \<le> 400 * DayFromYear y"
    using fa fb fc unfolding e by simp
  show "400 * DayFromYear y \<le> 146097 * (y - 1970) + 1000"
    using fa fb fc unfolding e by simp
qed

lemma yearUp_spec:
  "DayFromYear y \<le> d \<Longrightarrow> DayFromYear (yearUp y d) \<le> d \<and> d < DayFromYear (yearUp y d + 1)"
proof (induction y d rule: yearUp.induct)
  case (1 y d)
  show ?case
  proof (cases "DayFromYear (y + 1) \<le> d")
    case True
    then have "yearUp y d = yearUp (y + 1) d" by (subst yearUp.simps) simp
    with 1 True show ?thesis by simp
  next
    case False
    then have "yearUp y d = y" by (subst yearUp.simps) simp
    with 1 False show ?thesis by simp
  qed
qed

lemma year_guess: "DayFromYear (1969 + (if 0 \<le> d then d div 366 else d div 365)) \<le> d"
proof (cases "0 \<le> d")
  case True
  define k where "k = d div 366"
  have k: "366 * k \<le> d" "0 \<le> k"
    using div_bounds [of 366 d] True by (simp_all add: k_def)
  have "400 * DayFromYear (1969 + k) \<le> 146097 * (k - 1) + 1000"
    using DayFromYear_linear(2) [of "1969 + k"] by simp
  with k have "DayFromYear (1969 + k) \<le> d" by simp
  with True show ?thesis by (simp add: k_def)
next
  case False
  define k where "k = d div 365"
  have k: "365 * k \<le> d" "d < 365 * k + 365"
    using div_bounds [of 365 d] by (simp_all add: k_def)
  have "400 * DayFromYear (1969 + k) \<le> 146097 * (k - 1) + 1000"
    using DayFromYear_linear(2) [of "1969 + k"] by simp
  with k False have "DayFromYear (1969 + k) \<le> d" by simp
  with False show ?thesis by (simp add: k_def)
qed

lemma YearFromDay_spec:
  "DayFromYear (YearFromDay d) \<le> d" "d < DayFromYear (YearFromDay d + 1)"
  using yearUp_spec [OF year_guess, of d] by (simp_all add: YearFromDay_def)

lemma YearFromDay_range:
  assumes "- 100000000 \<le> d" "d \<le> 100000000"
  shows "- 999999 \<le> YearFromDay d" "YearFromDay d \<le> 999999"
  using YearFromDay_spec [of d] DayFromYear_linear [of "YearFromDay d"]
    DayFromYear_linear [of "YearFromDay d + 1"] assms
  by simp_all

lemma DaysInYear_cases: "DaysInYear y = 365 \<or> DaysInYear y = 366"
  by (simp add: DaysInYear_def)

lemma DayWithinYear_range: "0 \<le> DayWithinYear t" "DayWithinYear t < DaysInYear (YearFromTime t)"
  using YearFromDay_spec [of "Day t"] DayFromYear_step [of "YearFromTime t"]
  by (simp_all add: DayWithinYear_def YearFromTime_def)

lemma monthStart_simps [simp]:
  "monthStart leap 0 = 0" "monthStart leap 1 = 31"
  "monthStart leap 2 = (if leap then 60 else 59)"
  "monthStart leap 3 = (if leap then 91 else 90)"
  "monthStart leap 4 = (if leap then 121 else 120)"
  "monthStart leap 5 = (if leap then 152 else 151)"
  "monthStart leap 6 = (if leap then 182 else 181)"
  "monthStart leap 7 = (if leap then 213 else 212)"
  "monthStart leap 8 = (if leap then 244 else 243)"
  "monthStart leap 9 = (if leap then 274 else 273)"
  "monthStart leap 10 = (if leap then 305 else 304)"
  "monthStart leap 11 = (if leap then 335 else 334)"
  "monthStart leap 12 = (if leap then 366 else 365)"
  by (simp_all add: monthStart_def)

lemma monthOfDay_range:
  assumes "0 \<le> d" "d < (if leap then 366 else 365)"
  shows "0 \<le> monthOfDay leap d" "monthOfDay leap d \<le> 11"
    "monthStart leap (monthOfDay leap d) \<le> d"
    "d < monthStart leap (monthOfDay leap d + 1)"
  using assms by (simp_all add: monthOfDay_def split: if_splits)

lemma month_date_range:
  "0 \<le> MonthFromTime t" "MonthFromTime t \<le> 11"
  "1 \<le> DateFromTime t" "DateFromTime t \<le> DaysInMonth (YearFromTime t) (MonthFromTime t)"
proof -
  have r: "0 \<le> DayWithinYear t" "DayWithinYear t < (if InLeapYear t then 366 else 365)"
    using DayWithinYear_range [of t] DaysInYear_cases [of "YearFromTime t"]
    by (auto simp: InLeapYear_def)
  note m = monthOfDay_range [OF r]
  show "0 \<le> MonthFromTime t" "MonthFromTime t \<le> 11"
    using m by (simp_all add: MonthFromTime_def)
  show "1 \<le> DateFromTime t"
    using m by (simp add: DateFromTime_def MonthFromTime_def)
  show "DateFromTime t \<le> DaysInMonth (YearFromTime t) (MonthFromTime t)"
    using m by (simp add: DateFromTime_def MonthFromTime_def DaysInMonth_def InLeapYear_def)
qed

lemma DaysInMonth_le: "DaysInMonth y m \<le> 31"
  by (simp add: DaysInMonth_def monthStart_def Let_def)

lemma MakeDay_fields: "MakeDay (YearFromTime t) (MonthFromTime t) (DateFromTime t) = Day t"
  by (simp add: MakeDay_def DateFromTime_def DayWithinYear_def InLeapYear_def)

lemma MakeTime_fields:
  "MakeTime (HourFromTime t) (MinFromTime t) (SecFromTime t) (msFromTime t) = TimeWithinDay t"
proof -
  define h where "h = t div 3600000 mod 24"
  define m where "m = t div 60000 mod 60"
  define s where "s = t div 1000 mod 60"
  have a: "t mod (1000 * 86400) = 1000 * (t div 1000 mod 86400) + t mod 1000"
    by (rule zmod_zmult2_eq) simp
  have b: "(t div 1000) mod (60 * 1440) = 60 * (t div 1000 div 60 mod 1440) + s"
    unfolding s_def by (rule zmod_zmult2_eq) simp
  have c: "(t div 60000) mod (60 * 24) = 60 * (t div 60000 div 60 mod 24) + m"
    unfolding m_def by (rule zmod_zmult2_eq) simp
  have d1: "t div 1000 div 60 = t div (1000 * 60)"
    by (rule zdiv_zmult2_eq [symmetric]) simp
  have d2: "t div 60000 div 60 = t div (60000 * 60)"
    by (rule zdiv_zmult2_eq [symmetric]) simp
  have c': "t div 60000 mod 1440 = 60 * h + m"
    using c d2 by (simp add: h_def)
  have b': "t div 1000 mod 86400 = 60 * (60 * h + m) + s"
    using b d1 c' by simp
  have "t mod 86400000 = 1000 * (60 * (60 * h + m) + s) + t mod 1000"
    using a b' by simp
  then show ?thesis
    unfolding MakeTime_def HourFromTime_def MinFromTime_def SecFromTime_def msFromTime_def
        TimeWithinDay_def msPerDay_def h_def [symmetric] m_def [symmetric] s_def [symmetric]
    by simp
qed

lemma MakeDate_fields:
  "MakeDate (MakeDay (YearFromTime t) (MonthFromTime t) (DateFromTime t))
     (MakeTime (HourFromTime t) (MinFromTime t) (SecFromTime t) (msFromTime t)) = t"
  by (simp add: MakeDay_fields MakeTime_fields MakeDate_def Day_def TimeWithinDay_def)

lemma mod10_cases:
  fixes n :: nat
  shows "n mod 10 = 0 \<or> n mod 10 = 1 \<or> n mod 10 = 2 \<or> n mod 10 = 3 \<or> n mod 10 = 4 \<or>
     n mod 10 = 5 \<or> n mod 10 = 6 \<or> n mod 10 = 7 \<or> n mod 10 = 8 \<or> n mod 10 = 9"
  by presburger

lemma digitVal_digitChar: "digitVal (digitChar n) = Some (n mod 10)"
  using mod10_cases [of n] by (auto simp: digitVal_def digitChar_def)

lemma digitChar_not_sign: "digitChar n \<noteq> CHR ''+''" "digitChar n \<noteq> CHR ''-''"
  using mod10_cases [of n] by (auto simp: digitChar_def)

lemma read2_pad2: "n < 100 \<Longrightarrow> read2 (pad2 n @ r) = Some (n, r)"
proof -
  assume "n < 100"
  then have "n div 10 mod 10 = n div 10" by simp
  then show ?thesis
    by (simp add: read2_def pad2_def digitVal_digitChar)
qed

lemma read3_pad3: "n < 1000 \<Longrightarrow> read3 (pad3 n @ r) = Some (n, r)"
proof -
  assume n: "n < 1000"
  then have a: "n div 100 mod 10 = n div 100" by simp
  have "read2 (pad2 (n mod 100) @ r) = Some (n mod 100, r)"
    by (rule read2_pad2) simp
  then show ?thesis
    using a by (simp add: read3_def pad3_def digitVal_digitChar)
qed

lemma read4_pad4: "n < 10000 \<Longrightarrow> read4 (pad4 n @ r) = Some (n, r)"
proof -
  assume n: "n < 10000"
  then have a: "n div 100 < 100" by simp
  have "read2 (pad2 (n mod 100) @ r) = Some (n mod 100, r)"
    by (rule read2_pad2) simp
  then show ?thesis
    using read2_pad2 [OF a] by (simp add: read4_def pad4_def)
qed

lemma read6_pad6: "n < 1000000 \<Longrightarrow> read6 (pad6 n @ r) = Some (n, r)"
proof -
  assume n: "n < 1000000"
  then have a: "n div 10000 < 100" by simp
  have "read4 (pad4 (n mod 10000) @ r) = Some (n mod 10000, r)"
    by (rule read4_pad4) simp
  then show ?thesis
    using read2_pad2 [OF a] by (simp add: read6_def pad6_def)
qed

lemma parseYear_yearString:
  assumes "- 999999 \<le> y" "y \<le> 999999"
  shows "parseYear (yearString y @ r) = Some (y, r)"
proof (cases "0 \<le> y \<and> y \<le> 9999")
  case True
  define n where "n = nat y"
  have n: "n < 10000" "int n = y" using True by (auto simp: n_def)
  have ys: "yearString y = pad4 n"
    using True by (simp add: yearString_def n_def)
  obtain c rest where c: "pad4 n @ r = c # rest" "c \<noteq> CHR ''+''" "c \<noteq> CHR ''-''"
    using digitChar_not_sign by (simp add: pad4_def pad2_def)
  have "parseYear (c # rest) = map_option (\<lambda>(n, r'). (int n, r')) (read4 (c # rest))"
    using c(2,3) by simp
  then have "parseYear (pad4 n @ r) = Some (int n, r)"
    unfolding c(1) [symmetric] using read4_pad4 [OF n(1), of r] by simp
  then show ?thesis unfolding ys n(2) .
next
  case False
  define n where "n = nat \<bar>y\<bar>"
  have n: "n < 1000000" "n \<noteq> 0" "int n = \<bar>y\<bar>" using False assms by (auto simp: n_def)
  note rd = read6_pad6 [OF n(1), of r]
  show ?thesis
  proof (cases "y < 0")
    case True
    then have ys: "yearString y = CHR ''-'' # pad6 n"
      using False by (simp add: yearString_def n_def)
    have "- int n = y" using True n(3) by simp
    then show ?thesis unfolding ys using rd n(2) by simp
  next
    case nonneg: False
    then have ys: "yearString y = CHR ''+'' # pad6 n"
      using False by (simp add: yearString_def n_def)
    have "int n = y" using nonneg n(3) by simp
    then show ?thesis unfolding ys using rd by simp
  qed
qed

lemma time_fields_range:
  "0 \<le> HourFromTime t" "HourFromTime t \<le> 23" "0 \<le> MinFromTime t" "MinFromTime t \<le> 59"
  "0 \<le> SecFromTime t" "SecFromTime t \<le> 59" "0 \<le> msFromTime t" "msFromTime t \<le> 999"
  by (simp_all add: HourFromTime_def MinFromTime_def SecFromTime_def msFromTime_def)

lemma parseSeconds_full:
  assumes "ss < 100" "ms < 1000"
  shows "parseSeconds (CHR '':'' # pad2 ss @ CHR ''.'' # pad3 ms @ r) = Some ((ss, ms), r)"
  using read2_pad2 [OF assms(1)] read3_pad3 [OF assms(2)]
  by (simp add: parseSeconds_def)

lemma YearFromTime_range:
  assumes "\<bar>t\<bar> \<le> maxTime"
  shows "- 999999 \<le> YearFromTime t" "YearFromTime t \<le> 999999"
proof -
  have "- 100000000 \<le> Day t" "Day t \<le> 100000000"
    using assms div_bounds [of 86400000 t] by (simp_all add: Day_def msPerDay_def maxTime_def)
  then show "- 999999 \<le> YearFromTime t" "YearFromTime t \<le> 999999"
    unfolding YearFromTime_def by (rule YearFromDay_range)+
qed

lemma parseISO_toISOString:
  assumes "\<bar>t\<bar> \<le> maxTime"
  shows "parseISO (toISOString t) = Some t"
proof -
  define mo where "mo = nat (MonthFromTime t + 1)"
  define dd where "dd = nat (DateFromTime t)"
  define hh where "hh = nat (HourFromTime t)"
  define mi where "mi = nat (MinFromTime t)"
  define ss where "ss = nat (SecFromTime t)"
  define ms where "ms = nat (msFromTime t)"
  note md = month_date_range [of t]
  note tf = time_fields_range [of t]
  have dd31: "DateFromTime t \<le> 31"
    using md(4) DaysInMonth_le [of "YearFromTime t" "MonthFromTime t"] by simp
  have ints: "int mo - 1 = MonthFromTime t" "int dd = DateFromTime t" "int hh = HourFromTime t"
    "int mi = MinFromTime t" "int ss = SecFromTime t" "int ms = msFromTime t"
    using md tf by (simp_all add: mo_def dd_def hh_def mi_def ss_def ms_def)
  have small: "mo < 100" "dd < 100" "hh < 100" "mi < 100" "ss < 100" "ms < 1000"
    using md tf dd31 by (simp_all add: mo_def dd_def hh_def mi_def ss_def ms_def)
  have legal: "1 \<le> mo" "mo \<le> 12" "1 \<le> dd" "hh \<le> 23" "mi \<le> 59" "ss \<le> 59"
    using md tf by (simp_all add: mo_def dd_def hh_def mi_def ss_def)
  have dim: "int dd \<le> DaysInMonth (YearFromTime t) (int mo - 1)"
    using md(4) by (simp add: ints)
  have "parseISO (toISOString t) =
      TimeClip (MakeDate (MakeDay (YearFromTime t) (int mo - 1) (int dd))
                        (MakeTime (int hh) (int mi) (int ss) (int ms)) - 0 * 60000)"
    unfolding toISOString_def parseISO_def
      mo_def [symmetric] dd_def [symmetric] hh_def [symmetric] mi_def [symmetric]
      ss_def [symmetric] ms_def [symmetric]
    using legal dim
    by (simp add: parseYear_yearString [OF YearFromTime_range [OF assms]]
        read2_pad2 [OF small(1)] read2_pad2 [OF small(2)] read2_pad2 [OF small(3)]
        read2_pad2 [OF small(4)] parseSeconds_full [OF small(5) small(6)])
  also have "\<dots> = TimeClip t"
    by (simp add: ints MakeDate_fields)
  finally show ?thesis using assms by (simp add: TimeClip_def)
qed

lemma inClass_digit: "inClass digits (digitChar n)"
  using mod10_cases [of n] by (auto simp: inClass_def digits_def digitChar_def)

lemma inClass_tens:
  fixes n :: nat
  shows "n < 20 \<Longrightarrow> inClass ''01'' (digitChar (n div 10))"
    and "n < 30 \<Longrightarrow> inClass ''012'' (digitChar (n div 10))"
    and "n < 40 \<Longrightarrow> inClass ''0123'' (digitChar (n div 10))"
    and "n < 60 \<Longrightarrow> inClass ''012345'' (digitChar (n div 10))"
proof -
  define k where "k = n div 10"
  have k: "n < 20 \<Longrightarrow> k < 2" "n < 30 \<Longrightarrow> k < 3" "n < 40 \<Longrightarrow> k < 4" "n < 60 \<Longrightarrow> k < 6"
    by (simp_all add: k_def div_less_iff_less_mult)
  have c2: "k < 2 \<Longrightarrow> k = 0 \<or> k = 1" by linarith
  have c3: "k < 3 \<Longrightarrow> k = 0 \<or> k = 1 \<or> k = 2" by linarith
  have c4: "k < 4 \<Longrightarrow> k = 0 \<or> k = 1 \<or> k = 2 \<or> k = 3" by linarith
  have c6: "k < 6 \<Longrightarrow> k = 0 \<or> k = 1 \<or> k = 2 \<or> k = 3 \<or> k = 4 \<or> k = 5" by linarith
  show "n < 20 \<Longrightarrow> inClass ''01'' (digitChar (n div 10))"
    using c2 [OF k(1)] unfolding k_def [symmetric] by (auto simp: inClass_def digitChar_def)
  show "n < 30 \<Longrightarrow> inClass ''012'' (digitChar (n div 10))"
    using c3 [OF k(2)] unfolding k_def [symmetric] by (auto simp: inClass_def digitChar_def)
  show "n < 40 \<Longrightarrow> inClass ''0123'' (digitChar (n div 10))"
    using c4 [OF k(3)] unfolding k_def [symmetric] by (auto simp: inClass_def digitChar_def)
  show "n < 60 \<Longrightarrow> inClass ''012345'' (digitChar (n div 10))"
    using c6 [OF k(4)] unfolding k_def [symmetric] by (auto simp: inClass_def digitChar_def)
qed

lemma inClass_single: "inClass [c] c"
  by (simp add: inClass_def)

lemma seq_cls: "inClass cs c \<Longrightarrow> rxMatch (Seq (Cls cs) k) (c # r) = rxMatch k r"
  by simp

lemma seq_chr: "rxMatch (Seq (rxChar c) k) (c # r) = rxMatch k r"
  by (simp add: rxChar_def inClass_def)

lemma seq_dig: "rxMatch (Seq rxDigit k) (digitChar n # r) = rxMatch k r"
  by (simp add: rxDigit_def inClass_digit)

lemma rxMatch_rxDateTime:
  assumes "mo < 20" "dd < 40" "hh < 30" "mi < 60"
  shows "rxMatch rxDateTime (pad4 y @ CHR ''-'' # pad2 mo @ CHR ''-'' # pad2 dd @ CHR ''T'' #
           pad2 hh @ CHR '':'' # pad2 mi @ r) = [r]"
  unfolding rxDateTime_def pad4_def pad2_def
  by (simp only: seqs.simps append.simps seq_dig seq_chr rxMatch.simps(1)
      seq_cls [OF inClass_tens(1) [OF assms(1)]] seq_cls [OF inClass_tens(3) [OF assms(2)]]
      seq_cls [OF inClass_tens(2) [OF assms(3)]] seq_cls [OF inClass_tens(4) [OF assms(4)]])

lemma rxMatch_rxSeconds:
  assumes "ss < 60"
  shows "rxMatch rxSeconds (CHR '':'' # pad2 ss @ r) = [r]"
  unfolding rxSeconds_def pad2_def
  by (simp only: seqs.simps append.simps seq_dig seq_chr rxMatch.simps(1)
      seq_cls [OF inClass_tens(4) [OF assms(1)]])

lemma rxMatch_rxFraction: "''Z'' \<in> set (rxMatch rxFraction (CHR ''.'' # pad3 ms @ ''Z''))"
  by (simp add: rxFraction_def rxChar_def pad3_def pad2_def inClass_digit inClass_single)

lemma rxMatch_rxZone: "[] \<in> set (rxMatch rxZone ''Z'')"
  by (simp add: rxZone_def rxChar_def inClass_single)

lemma rxMatch_imp_rxTest: "rxMatch r s \<noteq> [] \<Longrightarrow> rxTest r s"
  by (cases s) simp_all

lemma rxTest_canonical:
  assumes "mo < 20" "dd < 40" "hh < 30" "mi < 60" "ss < 60"
  shows "rxTest isoDateRE (pad4 y @ CHR ''-'' # pad2 mo @ CHR ''-'' # pad2 dd @ CHR ''T'' #
           pad2 hh @ CHR '':'' # pad2 mi @ CHR '':'' # pad2 ss @ CHR ''.'' # pad3 ms @ ''Z'')"
proof -
  have "[] \<in> set (rxMatch (Seq rxDateTime (Seq rxSeconds (Seq rxFraction rxZone)))
      (pad4 y @ CHR ''-'' # pad2 mo @ CHR ''-'' # pad2 dd @ CHR ''T'' #
           pad2 hh @ CHR '':'' # pad2 mi @ CHR '':'' # pad2 ss @ CHR ''.'' # pad3 ms @ ''Z''))"
    using rxMatch_rxFraction [of ms] rxMatch_rxZone
    by (simp add: rxMatch_rxDateTime [OF assms(1-4)] rxMatch_rxSeconds [OF assms(5)]) blast
  then have "rxMatch isoDateRE
      (pad4 y @ CHR ''-'' # pad2 mo @ CHR ''-'' # pad2 dd @ CHR ''T'' #
           pad2 hh @ CHR '':'' # pad2 mi @ CHR '':'' # pad2 ss @ CHR ''.'' # pad3 ms @ ''Z'') \<noteq> []"
    unfolding isoDateRE_def by (simp only: rxMatch.simps) auto
  then show ?thesis by (rule rxMatch_imp_rxTest)
qed

lemma rxTest_toISOString:
  "rxTest isoDateRE (toISOString t)"
proof -
  note md = month_date_range [of t]
  note tf = time_fields_range [of t]
  have dd31: "DateFromTime t \<le> 31"
    using md(4) DaysInMonth_le [of "YearFromTime t" "MonthFromTime t"] by simp
  have small: "nat (MonthFromTime t + 1) < 20" "nat (DateFromTime t) < 40"
    "nat (HourFromTime t) < 30" "nat (MinFromTime t) < 60" "nat (SecFromTime t) < 60"
    using md tf dd31 by simp_all
  note can = rxTest_canonical [OF small]
  show ?thesis
  proof (cases "0 \<le> YearFromTime t \<and> YearFromTime t \<le> 9999")
    case True
    then show ?thesis
      using can [of "nat (YearFromTime t)" "nat (msFromTime t)"]
      by (simp add: toISOString_def yearString_def)
  next
    case False
    then obtain a b c where
      ys: "yearString (YearFromTime t) = a # b # c # pad4 (nat \<bar>YearFromTime t\<bar> mod 10000)"
      by (cases "YearFromTime t < 0") (simp_all add: yearString_def pad6_def pad2_def)
    show ?thesis
      unfolding toISOString_def ys
      using can [of "nat \<bar>YearFromTime t\<bar> mod 10000" "nat (msFromTime t)"]
      by simp
  qed
qed

lemma toISOString_nonempty: "toISOString t \<noteq> []"
  by (simp add: toISOString_def yearString_def pad4_def pad2_def)

section \<open>The hash codec\<close>

lemma Date_parse_toISOString: "\<bar>t\<bar> \<le> maxTime \<Longrightarrow> Date_parse H (toISOString t) = Some t"
  by (simp add: Date_parse_def parseISO_toISOString)

lemma isDate_toISOString: "\<bar>t\<bar> \<le> maxTime \<Longrightarrow> isDate H (toISOString t)"
  by (simp add: isDate_def Date_parse_toISOString rxTest_toISOString toISOString_nonempty)

lemma field_roundtrip_date:
  "\<bar>t\<bar> \<le> maxTime \<Longrightarrow> fromField H (toArg H (toField (JDate (Some t)))) = JDate (Some t)"
  by (simp add: toField_def toArg_def ToString_def fromField_def isDate_toISOString
      Date_parse_toISOString)

lemma field_roundtrip_string:
  "\<not> isDate H str \<Longrightarrow> fromField H (toArg H (toField (JStr str))) = JStr str"
  by (simp add: toField_def toArg_def ToString_def fromField_def)

lemma assignEntries_apply:
  "assignEntries f m k = (if k = ''__proto__'' then None else map_option f (m k))"
  by (simp add: assignEntries_def)

lemma assignEntries_plain: "m ''__proto__'' = None \<Longrightarrow> assignEntries f m = map_option f \<circ> m"
  by (auto simp: assignEntries_def fun_eq_iff)

lemma assignEntries_proto: "assignEntries f m ''__proto__'' = None"
  by (simp add: assignEntries_def)

lemma setObjectAsHash_ok:
  assumes "JDate None \<notin> ran object" "object \<noteq> Map.empty" "\<forall>v. s key \<noteq> Some (RStr v)"
    and "object ''__proto__'' = None"
  shows "setObjectAsHash H key object s =
     (Inr (), s(key \<mapsto> RHash ((case s key of Some (RHash h) \<Rightarrow> h | _ \<Rightarrow> Map.empty) ++
        (map_option (toArg H \<circ> toField) \<circ> object))))"
proof -
  have ne: "map_option toField \<circ> object \<noteq> Map.empty"
    using assms(2) by (auto simp: fun_eq_iff)
  have c: "map_option (toArg H) \<circ> (map_option toField \<circ> object) = map_option (toArg H \<circ> toField) \<circ> object"
    by (auto simp: fun_eq_iff option.map_comp)
  show ?thesis
    using assms(1,3) ne
    by (auto simp: setObjectAsHash_def client_hset_def c assignEntries_plain [where m = object, OF assms(4)]
        split: option.splits rval.splits)
qed

lemma loadObjectFromHash_hash:
  assumes "s key = Some (RHash h)" "h \<noteq> Map.empty"
  shows "loadObjectFromHash H key s = (Inr (Some (assignEntries (fromField H) h)), s)"
  using assms by (simp add: loadObjectFromHash_def await_def client_hgetall_def ret_def isEmpty_def)

lemma loadObjectFromHash_absent:
  assumes "s key = None"
  shows "loadObjectFromHash H key s = (Inr None, s)"
  using assms by (simp add: loadObjectFromHash_def await_def client_hgetall_def ret_def isEmpty_def)

lemma set_then_load:
  assumes "JDate None \<notin> ran object" "object \<noteq> Map.empty" "\<forall>v. s key \<noteq> Some (RStr v)"
    and "object ''__proto__'' = None"
  shows "\<exists>s' object'. setObjectAsHash H key object s = (Inr (), s') \<and>
      loadObjectFromHash H key s' = (Inr (Some object'), s') \<and>
      (\<forall>k v. object k = Some v \<longrightarrow> object' k = Some (fromField H (toArg H (toField v))))"
proof -
  define h where "h = (case s key of Some (RHash h) \<Rightarrow> h | _ \<Rightarrow> Map.empty) ++
        (map_option (toArg H \<circ> toField) \<circ> object)"
  define s' where "s' = s(key \<mapsto> RHash h)"
  have 1: "setObjectAsHash H key object s = (Inr (), s')"
    unfolding s'_def h_def by (rule setObjectAsHash_ok [where s = s and key = key, OF assms])
  obtain k0 v0 where "object k0 = Some v0"
    using assms(2) by (auto simp: fun_eq_iff)
  then have "h k0 \<noteq> None" by (simp add: h_def map_add_def)
  then have ne: "h \<noteq> Map.empty" by auto
  have 2: "loadObjectFromHash H key s' = (Inr (Some (assignEntries (fromField H) h)), s')"
    by (rule loadObjectFromHash_hash [OF _ ne]) (simp add: s'_def)
  have 3: "assignEntries (fromField H) h k = Some (fromField H (toArg H (toField v)))"
    if "object k = Some v" for k v
  proof -
    have "k \<noteq> ''__proto__''" using that assms(4) by auto
    then show ?thesis using that by (simp add: assignEntries_apply h_def map_add_def)
  qed
  from 1 2 3 show ?thesis by blast
qed

text \<open>
  Claim C1. For every entity record whose fields are strings or timestamps, none of them
  under the name \<^verbatim>\<open>__proto__\<close> (no entity has a field of that name, and the codec
  leaves such a field out), under a key that is free or holds a hash, writing the record
  with \<open>setObjectAsHash\<close> succeeds, and reading the key back with \<open>loadObjectFromHash\<close>
  yields a record in which every timestamp field is the same instant as in the original
  record.
\<close>

theorem codec_roundtrip_timestamps:
  assumes "\<forall>k v. object k = Some v \<longrightarrow> isStringOrTimestamp v"
    and "object ''__proto__'' = None"
    and "object \<noteq> Map.empty"
    and "\<forall>v. s key \<noteq> Some (RStr v)"
  shows "\<exists>s' object'. setObjectAsHash H key object s = (Inr (), s') \<and>
      loadObjectFromHash H key s' = (Inr (Some object'), s') \<and>
      (\<forall>k t. object k = Some (JDate (Some t)) \<longrightarrow> object' k = Some (JDate (Some t)))"
proof -
  have nd: "JDate None \<notin> ran object"
    using assms(1) by (fastforce simp: ran_def isStringOrTimestamp_def)
  obtain s' object' where
    r: "setObjectAsHash H key object s = (Inr (), s')"
       "loadObjectFromHash H key s' = (Inr (Some object'), s')"
       "\<forall>k v. object k = Some v \<longrightarrow> object' k = Some (fromField H (toArg H (toField v)))"
    using set_then_load [where s = s and key = key, OF nd assms(3,4,2)] by blast
  have "object' k = Some (JDate (Some t))" if "object k = Some (JDate (Some t))" for k t
  proof -
    have "\<bar>t\<bar> \<le> maxTime" using assms(1) that by (force simp: isStringOrTimestamp_def)
    then show ?thesis using r(3) that by (simp add: field_roundtrip_date)
  qed
  with r(1,2) show ?thesis by blast
qed

theorem codec_roundtrip_timestamps_witness:
  "\<exists>s' object'.
      setObjectAsHash strictHost ''session:abc''
        [''sessionToken'' \<mapsto> JStr ''abc'', ''expires'' \<mapsto> JDate (Some 1640995200000)]
        Map.empty = (Inr (), s') \<and>
      loadObjectFromHash strictHost ''session:abc'' s' = (Inr (Some object'), s') \<and>
      object' ''expires'' = Some (JDate (Some 1640995200000))"
proof -
  have h1: "\<forall>k v. [''sessionToken'' \<mapsto> JStr ''abc'', ''expires'' \<mapsto> JDate (Some 1640995200000)] k = Some v
        \<longrightarrow> isStringOrTimestamp v"
    by (simp add: isStringOrTimestamp_def maxTime_def)
  have h2: "[''sessionToken'' \<mapsto> JStr ''abc'', ''expires'' \<mapsto> JDate (Some 1640995200000)] \<noteq> Map.empty"
    by simp
  have h3: "\<forall>v. (Map.empty :: store) ''session:abc'' \<noteq> Some (RStr v)"
    by simp
  have h4: "[''sessionToken'' \<mapsto> JStr ''abc'', ''expires'' \<mapsto> JDate (Some 1640995200000)] ''__proto__'' = None"
    by simp
  from codec_roundtrip_timestamps [where s = Map.empty and key = "''session:abc''", OF h1 h4 h2 h3, of strictHost]
  show ?thesis by fastforce
qed

text \<open>
  A field named \<^verbatim>\<open>__proto__\<close> is not written: a record with that field and a name
  stores the name alone, and a record with that field alone sends no field at all, which
  the backend rejects. It is not read back either: a hash that holds only that field
  reads as the record without fields, not as not-found.
\<close>

lemma proto_field_not_written:
  "setObjectAsHash H ''user:u1'' [''name'' \<mapsto> JStr ''A'', ''__proto__'' \<mapsto> JStr ''x''] Map.empty =
     (Inr (), [''user:u1'' \<mapsto> RHash [''name'' \<mapsto> ''A'']])"
  "setObjectAsHash H ''user:u1'' [''__proto__'' \<mapsto> JStr ''x''] Map.empty = (Inl WrongArity, Map.empty)"
proof -
  have 1: "assignEntries toField [''name'' \<mapsto> JStr ''A'', ''__proto__'' \<mapsto> JStr ''x''] =
      [''name'' \<mapsto> JStr ''A'']"
    by (auto simp: assignEntries_def fun_eq_iff toField_def)
  have 2: "assignEntries toField [''__proto__'' \<mapsto> JStr ''x''] = Map.empty"
    by (auto simp: assignEntries_def fun_eq_iff)
  have r: "JDate None \<notin> ran [''name'' \<mapsto> JStr ''A'', ''__proto__'' \<mapsto> JStr ''x'']"
    "JDate None \<notin> ran [''__proto__'' \<mapsto> JStr ''x'']"
    by (auto simp: ran_def split: if_splits)
  show "setObjectAsHash H ''user:u1'' [''name'' \<mapsto> JStr ''A'', ''__proto__'' \<mapsto> JStr ''x''] Map.empty =
     (Inr (), [''user:u1'' \<mapsto> RHash [''name'' \<mapsto> ''A'']])"
    using r(1) by (simp add: setObjectAsHash_def 1 client_hset_def toArg_def ToString_def)
  show "setObjectAsHash H ''user:u1'' [''__proto__'' \<mapsto> JStr ''x''] Map.empty = (Inl WrongArity, Map.empty)"
    using r(2) by (simp add: setObjectAsHash_def 2 client_hset_def)
qed

lemma proto_field_not_read:
  "loadObjectFromHash H ''user:u1'' [''user:u1'' \<mapsto> RHash [''__proto__'' \<mapsto> ''x'']] =
     (Inr (Some Map.empty), [''user:u1'' \<mapsto> RHash [''__proto__'' \<mapsto> ''x'']])"
proof -
  have "assignEntries (fromField H) [''__proto__'' \<mapsto> ''x''] = Map.empty"
    by (auto simp: assignEntries_def fun_eq_iff)
  then show ?thesis
    by (simp add: loadObjectFromHash_def await_def client_hgetall_def ret_def isEmpty_def)
qed

section \<open>The store under the adapter's operations\<close>

lemma default_keys:
  "getUserKey noOptions u = ''user:'' @ u"
  "getUserByEmailKey noOptions e = ''user:email:'' @ e"
  "getAccountKey noOptions a = ''account:'' @ a"
  "getAccountByUserIdKey noOptions u = ''account:user:'' @ u"
  "getSessionKey noOptions t = ''session:'' @ t"
  "getSessionByUserIdKey noOptions u = ''session:user:'' @ u"
  "getVerificationKey noOptions i = ''verification:'' @ i"
  by (simp_all add: getUserKey_def getUserByEmailKey_def getAccountKey_def
      getAccountByUserIdKey_def getSessionKey_def getSessionByUserIdKey_def
      getVerificationKey_def prefixed_def currentOptions_def orDefault_def noOptions_def
      defaultOptions_def)

lemma await_Inr: "m s = (Inr x, s') \<Longrightarrow> await m f s = f x s'"
  by (simp add: await_def)

lemma await_Inl: "m s = (Inl e, s') \<Longrightarrow> await m f s = (Inl e, s')"
  by (simp add: await_def)

lemma loadObjectFromHash_cases:
  "loadObjectFromHash H key s =
     (case s key of
        None \<Rightarrow> (Inr None, s)
      | Some (RStr v) \<Rightarrow> (Inl WrongType, s)
      | Some (RHash h) \<Rightarrow>
          (Inr (if h = Map.empty then None else Some (assignEntries (fromField H) h)), s))"
  by (simp add: loadObjectFromHash_def await_def client_hgetall_def ret_def isEmpty_def
      split: option.splits rval.splits)

lemma loadObjectFromHash_Some:
  assumes "loadObjectFromHash H key s = (Inr (Some u), s')"
  shows "s' = s \<and> (\<exists>h. s key = Some (RHash h) \<and> h \<noteq> Map.empty \<and> u = assignEntries (fromField H) h)"
  using assms unfolding loadObjectFromHash_cases
  by (auto split: option.splits rval.splits if_splits)

lemma getUser_load: "getUser H opts ident = loadObjectFromHash H (getUserKey opts ident)"
  by (auto simp: getUser_def await_def ret_def fun_eq_iff split: sum.splits option.splits prod.splits)

lemma getAccount_load: "getAccount H opts ident = loadObjectFromHash H (getAccountKey opts ident)"
  by (auto simp: getAccount_def await_def ret_def fun_eq_iff split: sum.splits option.splits prod.splits)

lemma getSession_absent:
  "s (getSessionKey opts ident) = None \<Longrightarrow> getSession H opts ident s = (Inr None, s)"
  by (simp add: getSession_def await_def ret_def loadObjectFromHash_cases)

lemma setObjectAsHash_Inr:
  assumes "setObjectAsHash H key object s = (Inr x, s')"
  shows "\<exists>h. s' = s(key \<mapsto> RHash h) \<and> h \<noteq> Map.empty"
proof -
  have ne: "map_option (toArg H) \<circ> assignEntries toField object \<noteq> Map.empty"
    if "assignEntries toField object \<noteq> Map.empty"
    using that by (auto simp: fun_eq_iff)
  have ne2: "h ++ m \<noteq> Map.empty" if m: "m \<noteq> Map.empty" for h m :: "string \<rightharpoonup> string"
  proof -
    obtain k v where "m k = Some v" using m by (auto simp: fun_eq_iff)
    then have "(h ++ m) k = Some v" by (simp add: map_add_def)
    then show ?thesis by auto
  qed
  show ?thesis
    using assms ne ne2
    by (auto simp: setObjectAsHash_def client_hset_def throw_def
        split: if_splits option.splits rval.splits)
qed

lemma setAccount_Inr:
  assumes "setAccount H opts ident account s = (Inr r, s')"
  shows "\<exists>h. s' = s(getAccountKey opts ident \<mapsto> RHash h,
      getAccountByUserIdKey opts (ToString H (getField account ''userId'')) \<mapsto>
        RStr (getAccountKey opts ident))"
proof -
  obtain x s1 where 1: "setObjectAsHash H (getAccountKey opts ident) account s = (Inr x, s1)"
    using assms by (auto simp: setAccount_def await_def Let_def split: sum.splits prod.splits)
  then obtain h where h: "s1 = s(getAccountKey opts ident \<mapsto> RHash h)"
    using setObjectAsHash_Inr by blast
  show ?thesis
    using assms 1 h by (auto simp: setAccount_def await_def Let_def client_set_def ret_def)
qed

lemma setSession_Inr:
  assumes "setSession H opts ident session s = (Inr r, s')"
  shows "\<exists>h. s' = s(getSessionKey opts ident \<mapsto> RHash h,
      getSessionByUserIdKey opts (ToString H (getField session ''userId'')) \<mapsto>
        RStr (getSessionKey opts ident))"
proof -
  obtain x s1 where 1: "setObjectAsHash H (getSessionKey opts ident) session s = (Inr x, s1)"
    using assms by (auto simp: setSession_def await_def Let_def split: sum.splits prod.splits)
  then obtain h where h: "s1 = s(getSessionKey opts ident \<mapsto> RHash h)"
    using setObjectAsHash_Inr by blast
  show ?thesis
    using assms 1 h by (auto simp: setSession_def await_def Let_def client_set_def ret_def)
qed

lemma deleteUser_found:
  assumes u: "getUser H opts userId s = (Inr (Some u), s)"
    and a: "s (getAccountByUserIdKey opts userId) = Some (RStr ka)" "ka \<noteq> []"
    and se: "s (getSessionByUserIdKey opts userId) = Some (RStr ks)" "ks \<noteq> []"
  shows "deleteUser H opts userId s =
     (Inr JUndef,
      s(getUserByEmailKey opts (ToString H (getField u ''email'')) := None,
        getAccountByUserIdKey opts userId := None,
        getSessionByUserIdKey opts userId := None,
        ks := None, ka := None, getUserKey opts userId := None))"
  unfolding deleteUser_def
  by (subst await_Inr [where m = "getUser H opts userId", OF u])
    (simp add: await_def client_get_def client_del_def ret_def a se)

lemma deleteUser_absent:
  assumes "s (getUserKey opts userId) = None"
  shows "deleteUser H opts userId s = (Inr JNull, s)"
  using assms
  by (simp add: deleteUser_def getUser_load await_def loadObjectFromHash_cases ret_def)

lemma setObjectAsHash_succeeds:
  assumes "JDate None \<notin> ran object" "object \<noteq> Map.empty" "\<forall>v. s key \<noteq> Some (RStr v)"
    and "object ''__proto__'' = None"
  shows "\<exists>s'. setObjectAsHash H key object s = (Inr (), s')"
  using setObjectAsHash_ok [where s = s and key = key, OF assms] by blast

lemma ran_upd_JStr: "JDate None \<notin> ran object \<Longrightarrow> JDate None \<notin> ran (object(k \<mapsto> JStr v))"
  by (auto simp: ran_def)

lemma linkAccount_succeeds:
  assumes "JDate None \<notin> ran account"
    and "\<forall>v. s (getAccountKey opts (getAccountId (ToString H (getField account ''providerAccountId''))
                 (ToString H (getField account ''provider'')))) \<noteq> Some (RStr v)"
    and "account ''__proto__'' = None"
  shows "\<exists>r s'. linkAccount H opts account s = (Inr r, s')"
proof -
  define aid where "aid = getAccountId (ToString H (getField account ''providerAccountId''))
                 (ToString H (getField account ''provider''))"
  obtain s1 where "setObjectAsHash H (getAccountKey opts aid) (account(''id'' \<mapsto> JStr aid)) s = (Inr (), s1)"
    using setObjectAsHash_succeeds [where s = s and key = "getAccountKey opts aid"
        and object = "account(''id'' \<mapsto> JStr aid)" and H = H]
      ran_upd_JStr [OF assms(1)] assms(2,3)
    by (auto simp: aid_def)
  then show ?thesis
    by (simp add: linkAccount_def setAccount_def Let_def aid_def [symmetric] await_def
        client_set_def ret_def)
qed

lemma createSession_succeeds:
  assumes "JDate None \<notin> ran session" "getField session ''sessionToken'' \<noteq> JDate None"
    and "\<forall>v. s (getSessionKey opts (ToString H (getField session ''sessionToken''))) \<noteq> Some (RStr v)"
    and "session ''__proto__'' = None"
  shows "\<exists>r s'. createSession H opts session s = (Inr r, s')"
proof -
  define tok where "tok = ToString H (getField session ''sessionToken'')"
  have "JDate None \<notin> ran (session(''id'' \<mapsto> getField session ''sessionToken''))"
    using assms(1,2) by (auto simp: ran_def)
  then obtain s1 where "setObjectAsHash H (getSessionKey opts tok)
      (session(''id'' \<mapsto> getField session ''sessionToken'')) s = (Inr (), s1)"
    using setObjectAsHash_succeeds [where s = s and key = "getSessionKey opts tok"
        and object = "session(''id'' \<mapsto> getField session ''sessionToken'')" and H = H]
      assms(3,4)
    by (auto simp: tok_def)
  then show ?thesis
    by (simp add: createSession_def setSession_def Let_def tok_def [symmetric] await_def
        client_set_def ret_def)
qed

text \<open>
  Claim C4. Let user \<open>U\<close> be stored with email \<open>e\<close> (as \<open>getUser\<close> reads it), and let
  \<open>linkAccount acc\<close> and then \<open>createSession sess\<close> have returned, both records naming
  \<open>U\<close> as their user. Then \<open>deleteUser U\<close> returns, and afterwards \<open>getUser U\<close>, the read
  of the account by its derived id and the read of the session by its token are all
  not-found, and the email pointer, the account-by-user pointer and the session-by-user
  pointer are gone. On a user id whose key is not in the store, \<open>deleteUser\<close> answers
  \<^verbatim>\<open>null\<close> and leaves the store as it is.
\<close>

theorem deleteUser_cascade:
  "(getUser H noOptions U s0 = (Inr (Some u), s0) \<and> u ''email'' = Some (JStr e) \<and>
    ToString H (getField acc ''userId'') = U \<and> ToString H (getField sess ''userId'') = U \<and>
    linkAccount H noOptions acc s0 = (Inr r1, s1) \<and>
    createSession H noOptions sess s1 = (Inr r2, s2) \<longrightarrow>
    (\<exists>s3. deleteUser H noOptions U s2 = (Inr JUndef, s3) \<and>
       getUser H noOptions U s3 = (Inr None, s3) \<and>
       getAccount H noOptions (getAccountId (ToString H (getField acc ''providerAccountId''))
         (ToString H (getField acc ''provider''))) s3 = (Inr None, s3) \<and>
       getSession H noOptions (ToString H (getField sess ''sessionToken'')) s3 = (Inr None, s3) \<and>
       s3 (getUserByEmailKey noOptions e) = None \<and>
       s3 (getAccountByUserIdKey noOptions U) = None \<and>
       s3 (getSessionByUserIdKey noOptions U) = None)) \<and>
   (s (getUserKey noOptions V) = None \<longrightarrow> deleteUser H noOptions V s = (Inr JNull, s))"
proof (intro conjI impI)
  assume a: "getUser H noOptions U s0 = (Inr (Some u), s0) \<and> u ''email'' = Some (JStr e) \<and>
    ToString H (getField acc ''userId'') = U \<and> ToString H (getField sess ''userId'') = U \<and>
    linkAccount H noOptions acc s0 = (Inr r1, s1) \<and>
    createSession H noOptions sess s1 = (Inr r2, s2)"
  define aid where "aid = getAccountId (ToString H (getField acc ''providerAccountId''))
         (ToString H (getField acc ''provider''))"
  define tok where "tok = ToString H (getField sess ''sessionToken'')"
  define KU where "KU = getUserKey noOptions U"
  define KA where "KA = getAccountKey noOptions aid"
  define KS where "KS = getSessionKey noOptions tok"
  define KAU where "KAU = getAccountByUserIdKey noOptions U"
  define KSU where "KSU = getSessionByUserIdKey noOptions U"
  have neq: "KU \<noteq> KA" "KU \<noteq> KS" "KU \<noteq> KAU" "KU \<noteq> KSU" "KAU \<noteq> KS" "KAU \<noteq> KSU"
    "KA \<noteq> []" "KS \<noteq> []"
    by (simp_all add: KU_def KA_def KS_def KAU_def KSU_def default_keys)
  obtain h1 where s1: "s1 = s0(KA \<mapsto> RHash h1, KAU \<mapsto> RStr KA)"
    using a setAccount_Inr [of H noOptions aid "acc(''id'' \<mapsto> JStr aid)" s0 r1 s1]
    by (auto simp: linkAccount_def Let_def aid_def KA_def KAU_def getField_def)
  obtain h2 where s2: "s2 = s1(KS \<mapsto> RHash h2, KSU \<mapsto> RStr KS)"
    using a setSession_Inr [of H noOptions tok "sess(''id'' \<mapsto> getField sess ''sessionToken'')" s1 r2 s2]
    by (auto simp: createSession_def Let_def tok_def KS_def KSU_def getField_def)
  obtain h where h: "s0 KU = Some (RHash h)" "h \<noteq> Map.empty" "u = assignEntries (fromField H) h"
    using a loadObjectFromHash_Some [of H KU s0 u s0] by (auto simp: getUser_load KU_def)
  have "s2 KU = Some (RHash h)"
    using neq h(1) by (simp add: s1 s2)
  then have gu: "getUser H noOptions U s2 = (Inr (Some u), s2)"
    using h(2,3) by (simp add: getUser_load loadObjectFromHash_cases KU_def)
  have pa: "s2 (getAccountByUserIdKey noOptions U) = Some (RStr KA)"
    using neq by (simp add: s1 s2 KAU_def [symmetric])
  have ps: "s2 (getSessionByUserIdKey noOptions U) = Some (RStr KS)"
    by (simp add: s2 KSU_def [symmetric])
  have em: "ToString H (getField u ''email'') = e"
    using a by (simp add: getField_def ToString_def)
  note d = deleteUser_found [OF gu pa neq(7) ps neq(8), unfolded em]
  show "\<exists>s3. deleteUser H noOptions U s2 = (Inr JUndef, s3) \<and>
       getUser H noOptions U s3 = (Inr None, s3) \<and>
       getAccount H noOptions (getAccountId (ToString H (getField acc ''providerAccountId''))
         (ToString H (getField acc ''provider''))) s3 = (Inr None, s3) \<and>
       getSession H noOptions (ToString H (getField sess ''sessionToken'')) s3 = (Inr None, s3) \<and>
       s3 (getUserByEmailKey noOptions e) = None \<and>
       s3 (getAccountByUserIdKey noOptions U) = None \<and>
       s3 (getSessionByUserIdKey noOptions U) = None"
    unfolding d aid_def [symmetric] tok_def [symmetric]
    by (rule exI, intro conjI, rule refl)
      (simp_all add: getUser_load getAccount_load loadObjectFromHash_cases getSession_absent
        KA_def KS_def)
next
  assume "s (getUserKey noOptions V) = None"
  then show "deleteUser H noOptions V s = (Inr JNull, s)"
    by (rule deleteUser_absent)
qed

lemmas pattern_defs = isoDateRE_def rxDateTime_def rxSeconds_def rxFraction_def rxZone_def
  rxDigit_def rxChar_def digits_def inClass_def

lemma not_isDate_examples:
  "\<not> isDate H ''u1''" "\<not> isDate H ''a@x.com''"
  by (simp_all add: isDate_def pattern_defs)

lemma example_valid:
  "JDate None \<notin> ran exampleAccount" "JDate None \<notin> ran exampleSession"
  by (auto simp: ran_def exampleAccount_def exampleSession_def split: if_splits)

lemma example_names:
  "exampleAccount ''__proto__'' = None" "exampleSession ''__proto__'' = None"
  "exampleUser ''__proto__'' = None"
  by (simp_all add: exampleAccount_def exampleSession_def exampleUser_def)

theorem deleteUser_cascade_witness:
  "(\<exists>s3. deleteUser strictHost noOptions ''u1''
        (snd (createSession strictHost noOptions exampleSession
          (snd (linkAccount strictHost noOptions exampleAccount exampleStore)))) = (Inr JUndef, s3) \<and>
       getUser strictHost noOptions ''u1'' s3 = (Inr None, s3) \<and>
       getAccount strictHost noOptions ''github:42'' s3 = (Inr None, s3) \<and>
       getSession strictHost noOptions ''tok1'' s3 = (Inr None, s3) \<and>
       s3 ''user:email:a@x.com'' = None \<and>
       s3 ''account:user:u1'' = None \<and>
       s3 ''session:user:u1'' = None) \<and>
   deleteUser strictHost noOptions ''nobody'' exampleStore = (Inr JNull, exampleStore)"
proof -
  define u where "u = assignEntries (fromField strictHost) [''id'' \<mapsto> ''u1'', ''email'' \<mapsto> ''a@x.com'']"
  have g: "getUser strictHost noOptions ''u1'' exampleStore = (Inr (Some u), exampleStore)"
    by (simp add: getUser_load loadObjectFromHash_cases default_keys exampleStore_def u_def)
  have e: "u ''email'' = Some (JStr ''a@x.com'')"
    by (simp add: u_def fromField_def not_isDate_examples assignEntries_apply)
  have ids: "ToString strictHost (getField exampleAccount ''userId'') = ''u1''"
    "ToString strictHost (getField exampleSession ''userId'') = ''u1''"
    "ToString strictHost (getField exampleSession ''sessionToken'') = ''tok1''"
    "getAccountId (ToString strictHost (getField exampleAccount ''providerAccountId''))
         (ToString strictHost (getField exampleAccount ''provider'')) = ''github:42''"
    by (simp_all add: ToString_def getField_def exampleAccount_def exampleSession_def getAccountId_def)
  obtain r1 s1 where l: "linkAccount strictHost noOptions exampleAccount exampleStore = (Inr r1, s1)"
    using linkAccount_succeeds [of exampleAccount exampleStore noOptions strictHost, OF example_valid(1)]
    by (auto simp: ids default_keys exampleStore_def example_names)
  obtain h1 where s1: "s1 = exampleStore(''account:github:42'' \<mapsto> RHash h1,
      ''account:user:u1'' \<mapsto> RStr ''account:github:42'')"
    using l setAccount_Inr [of strictHost noOptions "''github:42''"
        "exampleAccount(''id'' \<mapsto> JStr ''github:42'')" exampleStore r1 s1]
    by (auto simp: linkAccount_def Let_def default_keys getField_def ToString_def
        exampleAccount_def getAccountId_def)
  obtain r2 s2 where c: "createSession strictHost noOptions exampleSession s1 = (Inr r2, s2)"
    using createSession_succeeds [of exampleSession s1 noOptions strictHost, OF example_valid(2)]
    by (auto simp: ids default_keys exampleSession_def exampleStore_def s1 getField_def)
  have st: "snd (createSession strictHost noOptions exampleSession
          (snd (linkAccount strictHost noOptions exampleAccount exampleStore))) = s2"
    by (simp add: l c)
  have n: "exampleStore (getUserKey noOptions ''nobody'') = None"
    by (simp add: default_keys exampleStore_def)
  from deleteUser_cascade [where H = strictHost and U = "''u1''" and ?s0.0 = exampleStore and u = u
      and e = "''a@x.com''" and acc = exampleAccount and sess = exampleSession and ?r1.0 = r1
      and ?s1.0 = s1 and ?r2.0 = r2 and ?s2.0 = s2 and s = exampleStore and V = "''nobody''"]
    g e ids l c n
  show ?thesis
    unfolding st by (simp add: default_keys)
qed

lemma isUuid_nonempty: "isUuid U \<Longrightarrow> U \<noteq> []"
  by (auto simp: isUuid_def)

lemma isUuid_not_email: "isUuid U \<Longrightarrow> U \<noteq> ''email:'' @ e"
  by (auto simp: isUuid_def)

lemma setUser_Inr:
  assumes "setUser H opts ident user s = (Inr r, s')"
  shows "r = user \<and> (\<exists>h. h \<noteq> Map.empty \<and>
     s' = (if truthy (getField user ''email'')
           then s(getUserKey opts ident \<mapsto> RHash h,
                  getUserByEmailKey opts (ToString H (getField user ''email'')) \<mapsto> RStr ident)
           else s(getUserKey opts ident \<mapsto> RHash h)))"
proof -
  obtain x s1 where 1: "setObjectAsHash H (getUserKey opts ident) user s = (Inr x, s1)"
    using assms by (auto simp: setUser_def await_def split: sum.splits prod.splits)
  then obtain h where h: "s1 = s(getUserKey opts ident \<mapsto> RHash h)" "h \<noteq> Map.empty"
    using setObjectAsHash_Inr by blast
  show ?thesis
    using assms 1 h
    by (auto simp: setUser_def await_def client_set_def ret_def split: if_splits)
qed

text \<open>
  Claim C7. For every user record containing an email (a non-empty string), after
  \<open>createUser\<close> has returned with the assigned id \<open>U\<close> (an identifier of the shape that
  \<^verbatim>\<open>uuid()\<close> draws), \<open>getUserByEmail\<close> with that email returns what \<open>getUser U\<close> returns,
  and that is a stored record; the record \<open>createUser\<close> returned carries the id \<open>U\<close>.
\<close>

theorem createUser_email_index:
  assumes "user ''email'' = Some (JStr email)" "email \<noteq> []"
    and "isUuid U"
    and "createUser H noOptions U user s = (Inr r, s')"
  shows "getUserByEmail H noOptions email s' = getUser H noOptions U s' \<and>
     (\<exists>u. getUser H noOptions U s' = (Inr (Some u), s')) \<and> r ''id'' = Some (JStr U)"
proof -
  have t: "truthy (getField (user(''id'' \<mapsto> JStr U)) ''email'')"
    "ToString H (getField (user(''id'' \<mapsto> JStr U)) ''email'') = email"
    using assms(1,2) by (simp_all add: truthy_def getField_def ToString_def)
  obtain h where h: "h \<noteq> Map.empty"
    "s' = s(getUserKey noOptions U \<mapsto> RHash h, getUserByEmailKey noOptions email \<mapsto> RStr U)"
    and r: "r = user(''id'' \<mapsto> JStr U)"
    using setUser_Inr [of H noOptions U "user(''id'' \<mapsto> JStr U)" s r s'] assms(4) t
    by (auto simp: createUser_def)
  have ne: "getUserKey noOptions U \<noteq> getUserByEmailKey noOptions email"
    using isUuid_not_email [OF assms(3), of email] by (auto simp: default_keys)
  have g: "getUser H noOptions U s' = (Inr (Some (assignEntries (fromField H) h)), s')"
    using h ne by (simp add: getUser_load loadObjectFromHash_cases)
  have "getUserByEmail H noOptions email s' = getUser H noOptions U s'"
    using isUuid_nonempty [OF assms(3)]
    by (simp add: getUserByEmail_def await_def client_get_def h(2))
  with g r show ?thesis by simp
qed

theorem createUser_email_index_witness:
  "getUserByEmail strictHost noOptions ''a@x.com''
      (snd (createUser strictHost noOptions ''123e4567-e89b-42d3-a456-426614174000'' exampleUser Map.empty)) =
   getUser strictHost noOptions ''123e4567-e89b-42d3-a456-426614174000''
      (snd (createUser strictHost noOptions ''123e4567-e89b-42d3-a456-426614174000'' exampleUser Map.empty)) \<and>
   (\<exists>u. getUser strictHost noOptions ''123e4567-e89b-42d3-a456-426614174000''
      (snd (createUser strictHost noOptions ''123e4567-e89b-42d3-a456-426614174000'' exampleUser Map.empty)) =
      (Inr (Some u),
       snd (createUser strictHost noOptions ''123e4567-e89b-42d3-a456-426614174000'' exampleUser Map.empty)))"
proof -
  have e: "exampleUser ''email'' = Some (JStr ''a@x.com'')" "''a@x.com'' \<noteq> []"
    by (simp_all add: exampleUser_def)
  have u: "isUuid ''123e4567-e89b-42d3-a456-426614174000''"
    by (simp add: isUuid_def)
  have v: "JDate None \<notin> ran (exampleUser(''id'' \<mapsto> JStr ''123e4567-e89b-42d3-a456-426614174000''))"
    by (auto simp: ran_def exampleUser_def split: if_splits)
  obtain s1 where "setObjectAsHash strictHost (getUserKey noOptions ''123e4567-e89b-42d3-a456-426614174000'')
      (exampleUser(''id'' \<mapsto> JStr ''123e4567-e89b-42d3-a456-426614174000'')) Map.empty = (Inr (), s1)"
    using setObjectAsHash_succeeds [OF v, of Map.empty
        "getUserKey noOptions ''123e4567-e89b-42d3-a456-426614174000''" strictHost]
    by (auto simp: example_names)
  then obtain r s' where c: "createUser strictHost noOptions ''123e4567-e89b-42d3-a456-426614174000''
      exampleUser Map.empty = (Inr r, s')"
    by (simp add: createUser_def setUser_def await_def client_set_def ret_def truthy_def
        getField_def exampleUser_def)
  from createUser_email_index [OF e u c] show ?thesis
    by (simp add: c)
qed

lemma getVerificationToken_absent:
  "s (getVerificationKey opts ident) = None \<Longrightarrow> getVerificationToken H opts ident s = (Inr None, s)"
  by (simp add: getVerificationToken_def Let_def await_def ret_def loadObjectFromHash_cases)

lemma useVerificationToken_absent:
  assumes "s (getVerificationKey opts (ToString H (getField vt ''identifier''))) = None"
  shows "useVerificationToken H opts vt s = (Inr None, s)"
  unfolding useVerificationToken_def Let_def
  by (subst await_Inr [where m = "getVerificationToken H opts (ToString H (getField vt ''identifier''))",
        OF getVerificationToken_absent [where s = s and H = H, OF assms]])
    (simp add: ret_def)

lemma example_toISOString: "toISOString 1640995200000 = ''2022-01-01T00:00:00.000Z''"
  by (simp add: toISOString_def YearFromTime_def YearFromDay_def Day_def msPerDay_def yearUp.simps
      DayFromYear_def yearString_def pad4_def pad2_def pad3_def digitChar_def MonthFromTime_def
      DateFromTime_def InLeapYear_def DayWithinYear_def DaysInYear_def monthOfDay_def
      HourFromTime_def MinFromTime_def SecFromTime_def msFromTime_def)

lemma example_parse: "parseISO ''2022-01-01T00:00:00Z'' = Some 1640995200000"
  by (simp add: parseISO_def read4_def read2_def digitVal_def parseSeconds_def read3_def
      DaysInMonth_def DaysInYear_def MakeDate_def MakeDay_def MakeTime_def DayFromYear_def
      msPerDay_def TimeClip_def maxTime_def)

lemma example_isDate: "isDate H ''2022-01-01T00:00:00Z''"
  by (simp add: isDate_def Date_parse_def example_parse pattern_defs)

lemma example_fromField: "fromField H ''2022-01-01T00:00:00Z'' = JDate (Some 1640995200000)"
  by (simp add: fromField_def example_isDate Date_parse_def example_parse)

lemma useVerificationToken_hash:
  assumes "s (getVerificationKey opts (ToString H (getField vt ''identifier''))) = Some (RHash h)"
    and "h \<noteq> Map.empty"
  shows "useVerificationToken H opts vt s =
     (if strictEq (getField vt ''token'')
           (case h ''token'' of None \<Rightarrow> JUndef | Some q \<Rightarrow> fromField H q)
      then (Inr (Some ([''identifier'' \<mapsto> getField (assignEntries (fromField H) h) ''identifier''] ++
                  assignEntries (fromField H) h)),
            s(getVerificationKey opts (ToString H (getField vt ''identifier'')) := None))
      else (Inr None, s))"
  using assms
  by (simp add: useVerificationToken_def getVerificationToken_def Let_def await_def ret_def
      loadObjectFromHash_cases deleteVerificationToken_def client_del_def getField_def
      map_add_def assignEntries_apply split: option.splits)

lemma useVerificationToken_empty_hash:
  assumes "s (getVerificationKey opts (ToString H (getField vt ''identifier''))) = Some (RHash Map.empty)"
  shows "useVerificationToken H opts vt s = (Inr None, s)"
  using assms
  by (simp add: useVerificationToken_def getVerificationToken_def Let_def await_def ret_def
      loadObjectFromHash_cases)

text \<open>
  Claim C3 fails as stated: a token is created whose token value is the string
  \<open>2022-01-01T00:00:00Z\<close>; the hash holds that string. A call that presents exactly this
  string answers not-found and leaves the store as it is, because the stored value is
  read back as a timestamp, which is not strictly equal to any string.
\<close>

theorem timestamp_token_not_consumed:
  "createVerificationToken strictHost noOptions timestampToken Map.empty =
     (Inr timestampToken, timestampTokens) \<and>
   useVerificationToken strictHost noOptions timestampRequest timestampTokens =
     (Inr None, timestampTokens)"
proof -
  have v: "JDate None \<notin> ran timestampToken"
    by (auto simp: ran_def timestampToken_def split: if_splits)
  have i: "ToString strictHost (getField timestampToken ''identifier'') = ''a@x.com''"
    "ToString strictHost (getField timestampRequest ''identifier'') = ''a@x.com''"
    by (simp_all add: ToString_def getField_def timestampToken_def timestampRequest_def)
  have w: "setObjectAsHash strictHost ''verification:a@x.com'' timestampToken Map.empty =
      (Inr (), timestampTokens)"
    by (subst setObjectAsHash_ok [OF v])
      (simp_all add: timestampToken_def timestampTokens_def toField_def toArg_def ToString_def
        example_toISOString)
  have 1: "createVerificationToken strictHost noOptions timestampToken Map.empty =
     (Inr timestampToken, timestampTokens)"
    by (simp add: createVerificationToken_def setVerificationToken_def Let_def i default_keys
        await_def w ret_def)
  have k: "timestampTokens (getVerificationKey noOptions
        (ToString strictHost (getField timestampRequest ''identifier''))) =
      Some (RHash [''identifier'' \<mapsto> ''a@x.com'', ''token'' \<mapsto> ''2022-01-01T00:00:00Z'',
               ''expires'' \<mapsto> ''2022-01-01T00:00:00.000Z''])"
    by (simp add: i default_keys timestampTokens_def)
  have 2: "useVerificationToken strictHost noOptions timestampRequest timestampTokens =
     (Inr None, timestampTokens)"
    by (subst useVerificationToken_hash [where s = timestampTokens and vt = timestampRequest
        and H = strictHost and opts = noOptions, OF k])
      (simp_all add: example_fromField getField_def timestampRequest_def)
  from 1 2 show ?thesis by simp
qed

text \<open>
  Claim C3, amended. The presented token is a string \<open>p\<close>. \<open>useVerificationToken\<close> answers
  not-found and leaves the store as it is when no token is stored under the identifier,
  when the token value in the stored hash is missing or differs from \<open>p\<close>, and when
  \<open>p\<close> is a string that \<open>isDate\<close> accepts (the codec then reads the stored value back as
  a timestamp, which equals no string), even if the stored value is \<open>p\<close>. When the stored
  token value is \<open>p\<close> and \<open>isDate\<close> rejects \<open>p\<close>, the call returns the stored record as
  \<open>getVerificationToken\<close> reads it, with the token \<open>p\<close>, and removes its key and nothing
  else; after that every call with the same identifier answers not-found.
\<close>

theorem useVerificationToken_single_use:
  fixes H :: host and vt :: obj and s :: store
  defines "K \<equiv> getVerificationKey noOptions (ToString H (getField vt ''identifier''))"
  shows
  "(s K = None \<longrightarrow> useVerificationToken H noOptions vt s = (Inr None, s)) \<and>
   (s K = Some (RHash h) \<and> vt ''token'' = Some (JStr p) \<and> (h ''token'' \<noteq> Some p \<or> isDate H p) \<longrightarrow>
      useVerificationToken H noOptions vt s = (Inr None, s)) \<and>
   (s K = Some (RHash h) \<and> vt ''token'' = Some (JStr p) \<and> h ''token'' = Some p \<and> \<not> isDate H p \<and>
    ToString H (getField vt2 ''identifier'') = ToString H (getField vt ''identifier'') \<longrightarrow>
      (\<exists>tk. getVerificationToken H noOptions (ToString H (getField vt ''identifier'')) s =
              (Inr (Some tk), s) \<and>
         tk ''token'' = Some (JStr p) \<and>
         useVerificationToken H noOptions vt s = (Inr (Some tk), s(K := None))) \<and>
      useVerificationToken H noOptions vt2 (s(K := None)) = (Inr None, s(K := None)))"
proof (intro conjI impI)
  assume "s K = None"
  then show "useVerificationToken H noOptions vt s = (Inr None, s)"
    unfolding K_def by (rule useVerificationToken_absent [where s = s])
next
  assume a: "s K = Some (RHash h) \<and> vt ''token'' = Some (JStr p) \<and> (h ''token'' \<noteq> Some p \<or> isDate H p)"
  show "useVerificationToken H noOptions vt s = (Inr None, s)"
  proof (cases "h = Map.empty")
    case True
    then show ?thesis
      using a useVerificationToken_empty_hash [where s = s and opts = noOptions and H = H and vt = vt]
      by (simp add: K_def)
  next
    case False
    have k: "s (getVerificationKey noOptions (ToString H (getField vt ''identifier''))) = Some (RHash h)"
      using a by (simp add: K_def)
    show ?thesis
      unfolding useVerificationToken_hash [where s = s and vt = vt and H = H and opts = noOptions and h = h, OF k False]
      using a by (auto simp: getField_def fromField_def split: option.splits)
  qed
next
  assume a: "s K = Some (RHash h) \<and> vt ''token'' = Some (JStr p) \<and> h ''token'' = Some p \<and> \<not> isDate H p \<and>
    ToString H (getField vt2 ''identifier'') = ToString H (getField vt ''identifier'')"
  have k: "s (getVerificationKey noOptions (ToString H (getField vt ''identifier''))) = Some (RHash h)"
    using a by (simp add: K_def)
  have ne: "h \<noteq> Map.empty"
    using a by auto
  define tk where "tk = [''identifier'' \<mapsto> getField (assignEntries (fromField H) h) ''identifier''] ++
      assignEntries (fromField H) h"
  have g: "getVerificationToken H noOptions (ToString H (getField vt ''identifier'')) s = (Inr (Some tk), s)"
    using k ne
    by (simp add: getVerificationToken_def Let_def await_def ret_def loadObjectFromHash_cases tk_def)
  have t: "tk ''token'' = Some (JStr p)"
    using a by (simp add: tk_def map_add_def assignEntries_apply fromField_def)
  have u: "useVerificationToken H noOptions vt s = (Inr (Some tk), s(K := None))"
    unfolding useVerificationToken_hash [where s = s and vt = vt and H = H and opts = noOptions and h = h, OF k ne]
    using a by (simp add: getField_def fromField_def tk_def K_def)
  from g t u show "\<exists>tk. getVerificationToken H noOptions (ToString H (getField vt ''identifier'')) s =
              (Inr (Some tk), s) \<and>
         tk ''token'' = Some (JStr p) \<and>
         useVerificationToken H noOptions vt s = (Inr (Some tk), s(K := None))"
    by blast
next
  assume a: "s K = Some (RHash h) \<and> vt ''token'' = Some (JStr p) \<and> h ''token'' = Some p \<and> \<not> isDate H p \<and>
    ToString H (getField vt2 ''identifier'') = ToString H (getField vt ''identifier'')"
  have "(s(K := None)) (getVerificationKey noOptions (ToString H (getField vt2 ''identifier''))) = None"
    using a by (simp add: K_def)
  then show "useVerificationToken H noOptions vt2 (s(K := None)) = (Inr None, s(K := None))"
    by (rule useVerificationToken_absent [where s = "s(K := None)"])
qed

theorem useVerificationToken_single_use_witness:
  "useVerificationToken strictHost noOptions exampleToken Map.empty = (Inr None, Map.empty) \<and>
   useVerificationToken strictHost noOptions wrongToken exampleTokens = (Inr None, exampleTokens) \<and>
   (\<exists>tk. useVerificationToken strictHost noOptions exampleToken exampleTokens =
       (Inr (Some tk), exampleTokens(''verification:a@x.com'' := None)) \<and>
     tk ''token'' = Some (JStr ''abc123'')) \<and>
   useVerificationToken strictHost noOptions exampleToken (exampleTokens(''verification:a@x.com'' := None)) =
     (Inr None, exampleTokens(''verification:a@x.com'' := None))"
proof -
  define h :: "string \<rightharpoonup> string" where
    "h = [''identifier'' \<mapsto> ''a@x.com'', ''token'' \<mapsto> ''abc123'',
               ''expires'' \<mapsto> ''2022-01-01T00:00:00.000Z'']"
  have i: "ToString strictHost (getField exampleToken ''identifier'') = ''a@x.com''"
    "ToString strictHost (getField wrongToken ''identifier'') = ''a@x.com''"
    by (simp_all add: ToString_def getField_def exampleToken_def wrongToken_def)
  have k: "exampleTokens ''verification:a@x.com'' = Some (RHash h)"
    by (simp add: exampleTokens_def h_def)
  have t: "exampleToken ''token'' = Some (JStr ''abc123'')" "wrongToken ''token'' = Some (JStr ''zzz'')"
    "h ''token'' = Some ''abc123''" "h ''token'' \<noteq> Some ''zzz''"
    by (simp_all add: exampleToken_def wrongToken_def h_def)
  have n: "\<not> isDate strictHost ''abc123''"
    by (simp add: isDate_def pattern_defs)
  have e: "(Map.empty :: store) ''verification:a@x.com'' = None"
    by simp
  note th = useVerificationToken_single_use [where H = strictHost and h = h, unfolded default_keys]
  from th [where s = Map.empty and vt = exampleToken and ?vt2.0 = exampleToken, unfolded i] e
  have 1: "useVerificationToken strictHost noOptions exampleToken Map.empty = (Inr None, Map.empty)"
    by simp
  from th [where s = exampleTokens and vt = wrongToken and ?vt2.0 = wrongToken and p = "''zzz''", unfolded i]
    k t(2,4)
  have 2: "useVerificationToken strictHost noOptions wrongToken exampleTokens = (Inr None, exampleTokens)"
    by simp
  from th [where s = exampleTokens and vt = exampleToken and ?vt2.0 = exampleToken and p = "''abc123''",
      unfolded i] k t(1,3) n
  have 3: "\<exists>tk. useVerificationToken strictHost noOptions exampleToken exampleTokens =
       (Inr (Some tk), exampleTokens(''verification:a@x.com'' := None)) \<and>
     tk ''token'' = Some (JStr ''abc123'')"
    "useVerificationToken strictHost noOptions exampleToken (exampleTokens(''verification:a@x.com'' := None)) =
     (Inr None, exampleTokens(''verification:a@x.com'' := None))"
    by auto
  from 1 2 3 show ?thesis by blast
qed

lemma deleteAccount_found:
  assumes "loadObjectFromHash H (getAccountKey opts ident) s = (Inr (Some a), s)"
  shows "deleteAccount H opts ident s = (Inl WrongArity, s)"
  unfolding deleteAccount_def Let_def
  by (subst await_Inr [where m = "loadObjectFromHash H (getAccountKey opts ident)", OF assms])
    (simp add: await_def client_hdel_def)

lemma deleteAccount_absent:
  assumes "s (getAccountKey opts ident) = None"
  shows "deleteAccount H opts ident s = (Inr JNull, s)"
  using assms
  by (simp add: deleteAccount_def Let_def await_def loadObjectFromHash_cases ret_def)

lemma unlinkAccount_found:
  assumes "getAccount H opts (getAccountId providerAccountId provider) s = (Inr (Some a), s)"
  shows "unlinkAccount H opts providerAccountId provider s = (Inl WrongArity, s)"
  using deleteAccount_found [where s = s and H = H and opts = opts
      and ident = "getAccountId providerAccountId provider" and a = a] assms
  by (simp add: unlinkAccount_def Let_def await_def getAccount_load)

lemma unlinkAccount_absent:
  assumes "s (getAccountKey opts (getAccountId providerAccountId provider)) = None"
  shows "unlinkAccount H opts providerAccountId provider s = (Inr JUndef, s)"
  using deleteAccount_absent [where s = s and H = H, OF assms]
  by (simp add: unlinkAccount_def Let_def await_def ret_def)

lemma linkedStore_eq:
  "\<exists>h. h \<noteq> Map.empty \<and> linkedStore = exampleStore(''account:github:42'' \<mapsto> RHash h,
      ''account:user:u1'' \<mapsto> RStr ''account:github:42'')"
proof -
  obtain s1 where 1: "setObjectAsHash strictHost ''account:github:42''
      (exampleAccount(''id'' \<mapsto> JStr ''github:42'')) exampleStore = (Inr (), s1)"
    using setObjectAsHash_succeeds [where s = exampleStore and key = "''account:github:42''"
        and H = strictHost, OF ran_upd_JStr [OF example_valid(1), of "''id''" "''github:42''"]]
    by (auto simp: exampleStore_def example_names)
  then obtain h where h: "s1 = exampleStore(''account:github:42'' \<mapsto> RHash h)" "h \<noteq> Map.empty"
    using setObjectAsHash_Inr by blast
  have "linkedStore = s1(''account:user:u1'' \<mapsto> RStr ''account:github:42'')"
    using 1
    by (simp add: linkedStore_def linkAccount_def setAccount_def Let_def await_def client_set_def
        ret_def default_keys getAccountId_def ToString_def getField_def exampleAccount_def)
  with h show ?thesis by blast
qed

lemma linkedStore_account:
  "\<exists>a. getAccount strictHost noOptions ''github:42'' linkedStore = (Inr (Some a), linkedStore)"
proof -
  obtain h where h: "h \<noteq> Map.empty" "linkedStore = exampleStore(''account:github:42'' \<mapsto> RHash h,
      ''account:user:u1'' \<mapsto> RStr ''account:github:42'')"
    using linkedStore_eq by blast
  have "linkedStore ''account:github:42'' = Some (RHash h)"
    by (subst h(2)) simp
  then show ?thesis
    using h(1) by (simp add: getAccount_load loadObjectFromHash_cases default_keys)
qed

text \<open>
  Claim C2, evaluated where it fails. After \<open>linkAccount\<close> of the account
  \<open>(github, 42)\<close> of user \<open>u1\<close>, \<open>unlinkAccount\<close> of that pair raises the backend's
  arity error and leaves the store as it was: the account is still read, and the
  account-by-user pointer is still there.
\<close>

theorem unlinkAccount_keeps_account:
  "unlinkAccount strictHost noOptions ''42'' ''github'' linkedStore = (Inl WrongArity, linkedStore) \<and>
   (\<exists>a. getAccount strictHost noOptions ''github:42'' linkedStore = (Inr (Some a), linkedStore)) \<and>
   linkedStore ''account:user:u1'' = Some (RStr ''account:github:42'')"
proof -
  obtain a where a: "getAccount strictHost noOptions ''github:42'' linkedStore = (Inr (Some a), linkedStore)"
    using linkedStore_account by blast
  then have "unlinkAccount strictHost noOptions ''42'' ''github'' linkedStore = (Inl WrongArity, linkedStore)"
    using unlinkAccount_found [of strictHost noOptions "''42''" "''github''" linkedStore a]
    by (simp add: getAccountId_def)
  moreover have "linkedStore ''account:user:u1'' = Some (RStr ''account:github:42'')"
  proof -
    obtain h where h: "linkedStore = exampleStore(''account:github:42'' \<mapsto> RHash h,
        ''account:user:u1'' \<mapsto> RStr ''account:github:42'')"
      using linkedStore_eq by blast
    show ?thesis by (subst h) simp
  qed
  ultimately show ?thesis using a by blast
qed

text \<open>
  Claim C8, evaluated where it fails. The second of two \<open>unlinkAccount\<close> calls on the
  linked account raises the arity error again, as the first did; it is not a not-found
  answer.
\<close>

theorem unlinkAccount_twice_raises:
  "fst (unlinkAccount strictHost noOptions ''42'' ''github''
         (snd (unlinkAccount strictHost noOptions ''42'' ''github'' linkedStore))) = Inl WrongArity"
proof -
  obtain a where a: "getAccount strictHost noOptions ''github:42'' linkedStore = (Inr (Some a), linkedStore)"
    using linkedStore_account by blast
  then have "unlinkAccount strictHost noOptions ''42'' ''github'' linkedStore = (Inl WrongArity, linkedStore)"
    using unlinkAccount_found [of strictHost noOptions "''42''" "''github''" linkedStore a]
    by (simp add: getAccountId_def)
  then show ?thesis by simp
qed

text \<open>The other three delete operations, called twice in succession.\<close>

lemma deleteVerificationToken_twice:
  "deleteVerificationToken opts ident s = (Inr JUndef, s(getVerificationKey opts ident := None))"
  "deleteVerificationToken opts ident (s(getVerificationKey opts ident := None)) =
     (Inr JUndef, s(getVerificationKey opts ident := None))"
  by (simp_all add: deleteVerificationToken_def Let_def await_def client_del_def ret_def)

lemma deleteSession_twice:
  assumes "deleteSession H opts tok s = (Inr JUndef, s')"
  shows "deleteSession H opts tok s' = (Inr JNull, s')"
proof -
  have "s' (getSessionKey opts tok) = None"
    using assms
    by (auto simp: deleteSession_def getSession_def await_def ret_def client_del_def Let_def
        loadObjectFromHash_cases split: option.splits rval.splits if_splits)
  then show ?thesis
    by (simp add: deleteSession_def await_Inr [where m = "getSession H opts tok",
          OF getSession_absent] ret_def)
qed

lemma deleteUser_twice:
  assumes "deleteUser H opts userId s = (Inr JUndef, s')"
  shows "deleteUser H opts userId s' = (Inr JNull, s')"
proof -
  have "s' (getUserKey opts userId) = None"
    using assms
    by (auto simp: deleteUser_def getUser_load await_def ret_def client_del_def client_get_def
        loadObjectFromHash_cases split: option.splits rval.splits if_splits)
  then show ?thesis by (rule deleteUser_absent)
qed

text \<open>
  Claim C9 fails as stated: a user whose name is the plain string
  \<open>2022-01-01T00:00:00Z\<close> is written and read back, and the name comes back as a
  timestamp, not as the string.
\<close>

theorem plain_string_read_as_timestamp:
  "fst (loadObjectFromHash strictHost ''user:u1''
     (snd (setObjectAsHash strictHost ''user:u1'' [''name'' \<mapsto> JStr ''2022-01-01T00:00:00Z''] Map.empty))) =
   Inr (Some [''name'' \<mapsto> JDate (Some 1640995200000)])"
  by (simp add: setObjectAsHash_def client_hset_def loadObjectFromHash_cases toField_def toArg_def
      ToString_def example_fromField assignEntries_plain)

text \<open>
  Claim C9, amended. For every record without an invalid date and without a field named
  \<^verbatim>\<open>__proto__\<close> (the codec leaves such a field out), written under a key that is free
  or holds a hash and read back: a string field comes back unchanged, as a string, when
  \<open>isDate\<close> rejects it (it is empty, the pattern finds no date-time in it, or it does not
  parse), and comes back as the timestamp it parses to when \<open>isDate\<close> accepts it; a
  timestamp field is stored as its \<open>toISOString\<close> text and comes back as the same
  instant.
\<close>

theorem codec_strings_and_timestamps:
  assumes "JDate None \<notin> ran object" "object \<noteq> Map.empty" "\<forall>v. s key \<noteq> Some (RStr v)"
    and "object ''__proto__'' = None"
  shows "\<exists>s' h object'. setObjectAsHash H key object s = (Inr (), s') \<and>
      s' key = Some (RHash h) \<and>
      loadObjectFromHash H key s' = (Inr (Some object'), s') \<and>
      (\<forall>k str. object k = Some (JStr str) \<longrightarrow>
         object' k = Some (if isDate H str then JDate (Date_parse H str) else JStr str)) \<and>
      (\<forall>k t. object k = Some (JDate (Some t)) \<longrightarrow> \<bar>t\<bar> \<le> maxTime \<longrightarrow>
         h k = Some (toISOString t) \<and> object' k = Some (JDate (Some t)))"
proof -
  define h where "h = (case s key of Some (RHash h) \<Rightarrow> h | _ \<Rightarrow> Map.empty) ++
        (map_option (toArg H \<circ> toField) \<circ> object)"
  define s' where "s' = s(key \<mapsto> RHash h)"
  have 1: "setObjectAsHash H key object s = (Inr (), s')"
    unfolding s'_def h_def by (rule setObjectAsHash_ok [where s = s and key = key, OF assms])
  obtain k0 v0 where "object k0 = Some v0"
    using assms(2) by (auto simp: fun_eq_iff)
  then have "h k0 \<noteq> None" by (simp add: h_def map_add_def)
  then have ne: "h \<noteq> Map.empty" by auto
  have 2: "s' key = Some (RHash h)" by (simp add: s'_def)
  have 3: "loadObjectFromHash H key s' = (Inr (Some (assignEntries (fromField H) h)), s')"
    using 2 ne by (simp add: loadObjectFromHash_cases)
  have np: "k \<noteq> ''__proto__''" if "object k = Some v" for k v
    using that assms(4) by auto
  have 4: "(assignEntries (fromField H) h) k =
      Some (if isDate H str then JDate (Date_parse H str) else JStr str)"
    if "object k = Some (JStr str)" for k str
    using that np [OF that]
    by (simp add: assignEntries_apply h_def map_add_def toField_def toArg_def ToString_def fromField_def)
  have 5: "h k = Some (toISOString t) \<and> (assignEntries (fromField H) h) k = Some (JDate (Some t))"
    if "object k = Some (JDate (Some t))" "\<bar>t\<bar> \<le> maxTime" for k t
    using that np [OF that(1)] field_roundtrip_date [OF that(2), of H]
    by (simp add: assignEntries_apply h_def map_add_def toField_def toArg_def ToString_def)
  from 1 2 3 4 5 show ?thesis by blast
qed

theorem codec_strings_and_timestamps_witness:
  "\<exists>s' h object'.
      setObjectAsHash strictHost ''session:abc''
        [''sessionToken'' \<mapsto> JStr ''abc'', ''expires'' \<mapsto> JDate (Some 1640995200000)]
        Map.empty = (Inr (), s') \<and>
      s' ''session:abc'' = Some (RHash h) \<and>
      loadObjectFromHash strictHost ''session:abc'' s' = (Inr (Some object'), s') \<and>
      object' ''sessionToken'' = Some (JStr ''abc'') \<and>
      h ''expires'' = Some ''2022-01-01T00:00:00.000Z'' \<and>
      object' ''expires'' = Some (JDate (Some 1640995200000))"
proof -
  have h1: "JDate None \<notin> ran [''sessionToken'' \<mapsto> JStr ''abc'', ''expires'' \<mapsto> JDate (Some 1640995200000)]"
    by (auto simp: ran_def split: if_splits)
  have h2: "[''sessionToken'' \<mapsto> JStr ''abc'', ''expires'' \<mapsto> JDate (Some 1640995200000)] \<noteq> Map.empty"
    by simp
  have h3: "\<forall>v. (Map.empty :: store) ''session:abc'' \<noteq> Some (RStr v)"
    by simp
  have n: "\<not> isDate strictHost ''abc''"
    by (simp add: isDate_def pattern_defs)
  have h4: "[''sessionToken'' \<mapsto> JStr ''abc'', ''expires'' \<mapsto> JDate (Some 1640995200000)] ''__proto__'' = None"
    by simp
  note t = example_toISOString
  have m: "\<bar>1640995200000\<bar> \<le> maxTime"
    by (simp add: maxTime_def)
  from codec_strings_and_timestamps [where s = Map.empty and key = "''session:abc''" and H = strictHost, OF h1 h2 h3 h4]
  obtain s' h object' where r:
    "setObjectAsHash strictHost ''session:abc''
        [''sessionToken'' \<mapsto> JStr ''abc'', ''expires'' \<mapsto> JDate (Some 1640995200000)]
        Map.empty = (Inr (), s')"
    "s' ''session:abc'' = Some (RHash h)"
    "loadObjectFromHash strictHost ''session:abc'' s' = (Inr (Some object'), s')"
    "\<forall>k str. [''sessionToken'' \<mapsto> JStr ''abc'', ''expires'' \<mapsto> JDate (Some 1640995200000)] k = Some (JStr str) \<longrightarrow>
         object' k = Some (if isDate strictHost str then JDate (Date_parse strictHost str) else JStr str)"
    "\<forall>k t. [''sessionToken'' \<mapsto> JStr ''abc'', ''expires'' \<mapsto> JDate (Some 1640995200000)] k = Some (JDate (Some t)) \<longrightarrow>
         \<bar>t\<bar> \<le> maxTime \<longrightarrow> h k = Some (toISOString t) \<and> object' k = Some (JDate (Some t))"
    by blast
  have a: "object' ''sessionToken'' = Some (JStr ''abc'')"
    using r(4) [rule_format, of "''sessionToken''" "''abc''"] n by simp
  have b: "h ''expires'' = Some ''2022-01-01T00:00:00.000Z'' \<and> object' ''expires'' = Some (JDate (Some 1640995200000))"
    using r(5) [rule_format, of "''expires''" 1640995200000] m by (simp add: t)
  from r(1-3) a b show ?thesis by blast
qed

lemma parseISO_range: "parseISO s = Some t \<Longrightarrow> \<bar>t\<bar> \<le> maxTime"
  by (auto simp: parseISO_def TimeClip_def split: Option.bind_splits if_splits prod.splits)

lemma Date_parse_range: "Date_parse H s = Some t \<Longrightarrow> \<bar>t\<bar> \<le> maxTime"
  by (auto simp: Date_parse_def TimeClip_def dest: parseISO_range
      split: option.splits Option.bind_splits if_splits)

lemma fromField_valid: "fromField H v \<noteq> JDate None"
  by (simp add: fromField_def isDate_def)

lemma fromField_fixed: "fromField H (toArg H (toField (fromField H v))) = fromField H v"
proof (cases "isDate H v")
  case True
  then obtain t where t: "Date_parse H v = Some t"
    by (auto simp: isDate_def)
  then have "\<bar>t\<bar> \<le> maxTime" by (rule Date_parse_range)
  then show ?thesis
    using True t field_roundtrip_date [of t H] by (simp add: fromField_def)
next
  case False
  then show ?thesis
    using field_roundtrip_string [of H v] by (simp add: fromField_def)
qed

lemma setUser_ok:
  assumes "JDate None \<notin> ran user" "user \<noteq> Map.empty"
    and "\<forall>v. s (getUserKey opts ident) \<noteq> Some (RStr v)"
    and "user ''__proto__'' = None"
  shows "setUser H opts ident user s =
     (Inr user,
      (if truthy (getField user ''email'')
       then (s(getUserKey opts ident \<mapsto> RHash ((case s (getUserKey opts ident) of
                 Some (RHash h) \<Rightarrow> h | _ \<Rightarrow> Map.empty) ++ (map_option (toArg H \<circ> toField) \<circ> user))))
              (getUserByEmailKey opts (ToString H (getField user ''email'')) \<mapsto> RStr ident)
       else s(getUserKey opts ident \<mapsto> RHash ((case s (getUserKey opts ident) of
                 Some (RHash h) \<Rightarrow> h | _ \<Rightarrow> Map.empty) ++ (map_option (toArg H \<circ> toField) \<circ> user)))))"
  unfolding setUser_def
  by (subst await_Inr [where m = "setObjectAsHash H (getUserKey opts ident) user",
        OF setObjectAsHash_ok [where s = s and key = "getUserKey opts ident", OF assms]])
    (simp add: await_def client_set_def ret_def)

lemma updateUser_found:
  assumes "getUser H opts (ToString H (getField updates ''id'')) s = (Inr (Some u), s)"
  shows "updateUser H opts updates s =
     setUser H opts (ToString H (getField updates ''id'')) (u ++ updates) s"
  unfolding updateUser_def Let_def
  by (subst await_Inr [where m = "getUser H opts (ToString H (getField updates ''id''))", OF assms])
    simp

lemma updateUser_absent:
  assumes "s (getUserKey opts (ToString H (getField updates ''id''))) = None"
  shows "updateUser H opts updates s =
     setUser H opts (ToString H (getField updates ''id'')) updates s"
proof -
  have g: "getUser H opts (ToString H (getField updates ''id'')) s = (Inr None, s)"
    using assms by (simp add: getUser_load loadObjectFromHash_cases)
  show ?thesis
    unfolding updateUser_def Let_def
    by (subst await_Inr [where m = "getUser H opts (ToString H (getField updates ''id''))", OF g])
      simp
qed

lemma merged_valid:
  assumes "u = assignEntries (fromField H) h" "JDate None \<notin> ran updates"
  shows "JDate None \<notin> ran (u ++ updates)"
  using assms fromField_valid [of H]
  by (auto simp: ran_def map_add_def assignEntries_apply split: option.splits if_splits)

lemma merged_names:
  assumes "u = assignEntries (fromField H) h" "updates ''__proto__'' = None"
  shows "(u ++ updates) ''__proto__'' = None"
  using assms by (simp add: map_add_def assignEntries_apply)

text \<open>
  Claim C5. For every stored user record \<open>u\<close> (as \<open>getUser U\<close> reads it) and every
  update record that carries the id \<open>U\<close>, holds no invalid date and has no field named
  \<^verbatim>\<open>__proto__\<close> (the codec leaves such a field out), with \<open>U\<close> not of the form
  \<open>email:\<dots>\<close> (so that the user's key is no email pointer key), \<open>updateUser\<close> returns the
  shallow merge of the update over \<open>u\<close>, and \<open>getUser U\<close> afterwards reads a record in
  which every field the update does not name is as it was and every field the update
  names holds the supplied value, as the codec reads it.
\<close>

theorem updateUser_merge:
  assumes "getUser H noOptions U s = (Inr (Some u), s)"
    and "updates ''id'' = Some (JStr U)"
    and "JDate None \<notin> ran updates"
    and "updates ''__proto__'' = None"
    and "\<forall>e. U \<noteq> ''email:'' @ e"
  shows "\<exists>s' u'. updateUser H noOptions updates s = (Inr (u ++ updates), s') \<and>
     getUser H noOptions U s' = (Inr (Some u'), s') \<and>
     (\<forall>k. updates k = None \<longrightarrow> (u ++ updates) k = u k \<and> u' k = u k) \<and>
     (\<forall>k v. updates k = Some v \<longrightarrow>
        (u ++ updates) k = Some v \<and> u' k = Some (fromField H (toArg H (toField v))))"
proof -
  have idn: "ToString H (getField updates ''id'') = U"
    using assms(2) by (simp add: getField_def ToString_def)
  define KU where "KU = getUserKey noOptions U"
  obtain h where h: "s KU = Some (RHash h)" "h \<noteq> Map.empty" "u = assignEntries (fromField H) h"
    using assms(1) loadObjectFromHash_Some [of H KU s u s] by (auto simp: getUser_load KU_def)
  define m where "m = u ++ updates"
  define h' where "h' = h ++ (map_option (toArg H \<circ> toField) \<circ> m)"
  have v: "JDate None \<notin> ran m"
    unfolding m_def by (rule merged_valid [OF h(3) assms(3)])
  have np: "m ''__proto__'' = None"
    unfolding m_def by (rule merged_names [where updates = updates and u = u, OF h(3) assms(4)])
  have "m ''id'' = Some (JStr U)"
    using assms(2) by (simp add: m_def map_add_def)
  then have ne: "m \<noteq> Map.empty" by auto
  have ns: "\<forall>v. s (getUserKey noOptions U) \<noteq> Some (RStr v)"
    using h(1) by (simp add: KU_def)
  have kk: "getUserByEmailKey noOptions e \<noteq> KU" for e
    using assms(5) by (auto simp: KU_def default_keys)
  define s' where "s' = (if truthy (getField m ''email'')
       then (s(KU \<mapsto> RHash h'))(getUserByEmailKey noOptions (ToString H (getField m ''email'')) \<mapsto> RStr U)
       else s(KU \<mapsto> RHash h'))"
  have run: "updateUser H noOptions updates s = (Inr m, s')"
    using assms(1) h(1)
    by (simp add: updateUser_found idn m_def [symmetric] setUser_ok [where s = s and opts = noOptions and ident = U, OF v ne ns np]
        KU_def [symmetric] s'_def h'_def)
  have at: "s' KU = Some (RHash h')"
    using kk [of "ToString H (getField m ''email'')"] by (auto simp: s'_def)
  obtain k0 v0 where "m k0 = Some v0" using ne by (auto simp: fun_eq_iff)
  then have "h' k0 \<noteq> None" by (simp add: h'_def map_add_def)
  then have ne': "h' \<noteq> Map.empty" by auto
  have g: "getUser H noOptions U s' = (Inr (Some (assignEntries (fromField H) h')), s')"
    using at ne' by (simp add: getUser_load loadObjectFromHash_cases KU_def [symmetric])
  have keep: "m k = u k \<and> (assignEntries (fromField H) h') k = u k" if "updates k = None" for k
  proof (cases "h k")
    case None
    then show ?thesis
      using that by (simp add: m_def h'_def map_add_def h(3) assignEntries_apply)
  next
    case (Some x)
    then show ?thesis
      using that by (simp add: m_def h'_def map_add_def h(3) fromField_fixed assignEntries_apply)
  qed
  have win: "m k = Some v \<and> (assignEntries (fromField H) h') k = Some (fromField H (toArg H (toField v)))"
    if "updates k = Some v" for k v
  proof -
    have "k \<noteq> ''__proto__''" using that assms(4) by auto
    then show ?thesis using that by (simp add: m_def h'_def map_add_def assignEntries_apply)
  qed
  from run g keep win show ?thesis
    unfolding m_def by blast
qed

theorem updateUser_merge_witness:
  "\<exists>r s' u'. updateUser strictHost noOptions [''id'' \<mapsto> JStr ''1'', ''name'' \<mapsto> JStr ''B''] storedUser =
       (Inr r, s') \<and>
     r ''name'' = Some (JStr ''B'') \<and> r ''email'' = Some (JStr ''a@x.com'') \<and>
     getUser strictHost noOptions ''1'' s' = (Inr (Some u'), s') \<and>
     u' ''name'' = Some (JStr ''B'') \<and> u' ''email'' = Some (JStr ''a@x.com'')"
proof -
  define u where "u = assignEntries (fromField strictHost) [''id'' \<mapsto> ''1'', ''name'' \<mapsto> ''A'', ''email'' \<mapsto> ''a@x.com'']"
  define updates :: obj where "updates = [''id'' \<mapsto> JStr ''1'', ''name'' \<mapsto> JStr ''B'']"
  have g: "getUser strictHost noOptions ''1'' storedUser = (Inr (Some u), storedUser)"
    by (simp add: getUser_load loadObjectFromHash_cases default_keys storedUser_def u_def)
  have i: "updates ''id'' = Some (JStr ''1'')" by (simp add: updates_def)
  have v: "JDate None \<notin> ran updates"
    by (auto simp: ran_def updates_def split: if_splits)
  have c: "\<forall>e. ''1'' \<noteq> ''email:'' @ e" by simp
  have np: "updates ''__proto__'' = None" by (simp add: updates_def)
  have e: "u ''email'' = Some (JStr ''a@x.com'')"
    by (simp add: u_def fromField_def not_isDate_examples assignEntries_apply)
  have n: "\<not> isDate strictHost ''B''"
    by (simp add: isDate_def pattern_defs)
  from updateUser_merge [OF g i v np c]
  obtain s' u' where r: "updateUser strictHost noOptions updates storedUser = (Inr (u ++ updates), s')"
    "getUser strictHost noOptions ''1'' s' = (Inr (Some u'), s')"
    "\<forall>k. updates k = None \<longrightarrow> (u ++ updates) k = u k \<and> u' k = u k"
    "\<forall>k v. updates k = Some v \<longrightarrow>
        (u ++ updates) k = Some v \<and> u' k = Some (fromField strictHost (toArg strictHost (toField v)))"
    by blast
  have 1: "(u ++ updates) ''email'' = Some (JStr ''a@x.com'') \<and> u' ''email'' = Some (JStr ''a@x.com'')"
    using r(3) [rule_format, of "''email''"] e by (simp add: updates_def)
  have 2: "(u ++ updates) ''name'' = Some (JStr ''B'') \<and> u' ''name'' = Some (JStr ''B'')"
    using r(4) [rule_format, of "''name''" "JStr ''B''"] field_roundtrip_string [OF n]
    by (simp add: updates_def)
  show ?thesis
    by (rule exI [of _ "u ++ updates"], rule exI [of _ s'], rule exI [of _ u'])
      (use r(1,2) 1 2 in \<open>simp add: updates_def\<close>)
qed

lemma getUserByEmail_Some:
  assumes "s (getUserByEmailKey opts e) = Some (RStr U)"
    and "getUserByEmail H opts e s = (Inr (Some u), s)"
  shows "U \<noteq> [] \<and> getUser H opts U s = (Inr (Some u), s)"
  using assms
  by (auto simp: getUserByEmail_def await_def client_get_def ret_def split: if_splits)

lemma getUserByEmail_pointer:
  assumes "s (getUserByEmailKey opts e) = Some (RStr U)" "U \<noteq> []"
  shows "getUserByEmail H opts e s = getUser H opts U s"
  using assms by (simp add: getUserByEmail_def await_def client_get_def)

text \<open>
  Claim C10. Let the email pointer for \<open>e1\<close> hold \<open>U\<close>, let \<open>getUserByEmail e1\<close> find the
  user, with email \<open>e1\<close>, and let \<open>e2\<close> differ from \<open>e1\<close> (and \<open>U\<close> not be \<open>email:e2\<close>, so
  that the new pointer key is not the user's own key). Then
  \<open>updateUser {id: U, email: e2}\<close> returns, the pointer key for \<open>e1\<close> still holds \<open>U\<close>, no
  key but the user's hash and the pointer for \<open>e2\<close> has changed, and \<open>getUserByEmail e1\<close>
  returns the user record whose email field is now \<open>e2\<close> as the codec reads it: the string
  \<open>e2\<close> unless \<open>e2\<close> itself reads as a timestamp.
\<close>

theorem updateUser_keeps_old_pointer:
  assumes "s (getUserByEmailKey noOptions e1) = Some (RStr U)"
    and "getUserByEmail H noOptions e1 s = (Inr (Some u), s)"
    and "u ''email'' = Some (JStr e1)"
    and "e2 \<noteq> e1" and "U \<noteq> ''email:'' @ e2"
  shows "\<exists>r s' u'. updateUser H noOptions [''id'' \<mapsto> JStr U, ''email'' \<mapsto> JStr e2] s = (Inr r, s') \<and>
     s' (getUserByEmailKey noOptions e1) = Some (RStr U) \<and>
     (\<forall>k. k \<noteq> getUserKey noOptions U \<and> k \<noteq> getUserByEmailKey noOptions e2 \<longrightarrow> s' k = s k) \<and>
     (e2 \<noteq> [] \<longrightarrow> s' (getUserByEmailKey noOptions e2) = Some (RStr U)) \<and>
     getUserByEmail H noOptions e1 s' = (Inr (Some u'), s') \<and>
     u' ''email'' = Some (fromField H e2) \<and>
     (\<not> isDate H e2 \<longrightarrow> u' ''email'' = Some (JStr e2))"
proof -
  define updates :: obj where "updates = [''id'' \<mapsto> JStr U, ''email'' \<mapsto> JStr e2]"
  define KU where "KU = getUserKey noOptions U"
  define KE1 where "KE1 = getUserByEmailKey noOptions e1"
  define KE2 where "KE2 = getUserByEmailKey noOptions e2"
  have U: "U \<noteq> []" and g: "getUser H noOptions U s = (Inr (Some u), s)"
    using getUserByEmail_Some [OF assms(1,2)] by simp_all
  have idn: "ToString H (getField updates ''id'') = U"
    by (simp add: updates_def getField_def ToString_def)
  obtain h where h: "s KU = Some (RHash h)" "h \<noteq> Map.empty" "u = assignEntries (fromField H) h"
    using g loadObjectFromHash_Some [of H KU s u s] by (auto simp: getUser_load KU_def)
  define m where "m = u ++ updates"
  define h' where "h' = h ++ (map_option (toArg H \<circ> toField) \<circ> m)"
  have vu: "JDate None \<notin> ran updates"
    by (auto simp: ran_def updates_def split: if_splits)
  have v: "JDate None \<notin> ran m"
    unfolding m_def by (rule merged_valid [OF h(3) vu])
  have np: "m ''__proto__'' = None"
    unfolding m_def by (rule merged_names [where updates = updates and u = u, OF h(3)]) (simp add: updates_def)
  have me: "m ''email'' = Some (JStr e2)" "m ''id'' = Some (JStr U)"
    by (simp_all add: m_def updates_def map_add_def)
  then have ne: "m \<noteq> Map.empty" by auto
  have ns: "\<forall>v. s (getUserKey noOptions U) \<noteq> Some (RStr v)"
    using h(1) by (simp add: KU_def)
  have em: "getField m ''email'' = JStr e2"
    using me by (simp add: getField_def)
  define s' where "s' = (if e2 \<noteq> [] then (s(KU \<mapsto> RHash h'))(KE2 \<mapsto> RStr U) else s(KU \<mapsto> RHash h'))"
  have uf: "updateUser H noOptions updates s = setUser H noOptions U m s"
    using updateUser_found [where updates = updates and H = H and opts = noOptions and s = s and u = u] g
    by (simp add: idn m_def)
  have run: "updateUser H noOptions updates s = (Inr m, s')"
    unfolding uf setUser_ok [where s = s and opts = noOptions and ident = U, OF v ne ns np]
    using h(1)
    by (simp add: KU_def [symmetric] s'_def h'_def em truthy_def ToString_def KE2_def)
  have k1: "KE1 \<noteq> KU"
    using assms(1) h(1) by (auto simp: KE1_def)
  have k2: "KE2 \<noteq> KE1"
    using assms(4) by (simp add: KE1_def KE2_def default_keys)
  have k3: "KE2 \<noteq> KU"
    using assms(5) by (auto simp: KE2_def KU_def default_keys)
  have p1: "s' KE1 = Some (RStr U)"
    using k1 k2 assms(1) by (auto simp: s'_def KE1_def [symmetric])
  have fr: "\<forall>k. k \<noteq> KU \<and> k \<noteq> KE2 \<longrightarrow> s' k = s k"
    by (simp add: s'_def)
  have p2: "e2 \<noteq> [] \<longrightarrow> s' KE2 = Some (RStr U)"
    by (simp add: s'_def)
  have at: "s' KU = Some (RHash h')"
    using k3 by (auto simp: s'_def)
  have he: "h' ''email'' = Some e2"
    using me(1) by (simp add: h'_def map_add_def toField_def toArg_def ToString_def)
  then have ne': "h' \<noteq> Map.empty" by auto
  have gu: "getUser H noOptions U s' = (Inr (Some (assignEntries (fromField H) h')), s')"
    using at ne' by (simp add: getUser_load loadObjectFromHash_cases KU_def [symmetric])
  have ge: "getUserByEmail H noOptions e1 s' = (Inr (Some (assignEntries (fromField H) h')), s')"
    using getUserByEmail_pointer [where s = s' and opts = noOptions and e = e1 and U = U and H = H]
      p1 U gu
    by (simp add: KE1_def)
  have ue: "(assignEntries (fromField H) h') ''email'' = Some (fromField H e2)"
    using he by (simp add: assignEntries_apply)
  have pl: "\<not> isDate H e2 \<longrightarrow> (assignEntries (fromField H) h') ''email'' = Some (JStr e2)"
    using he by (simp add: fromField_def assignEntries_apply)
  show ?thesis
    by (rule exI [of _ m], rule exI [of _ s'], rule exI [of _ "assignEntries (fromField H) h'"])
      (use run p1 fr p2 ge ue pl in \<open>simp add: updates_def KE1_def KE2_def KU_def\<close>)
qed

theorem updateUser_keeps_old_pointer_witness:
  "\<exists>r s' u'. updateUser strictHost noOptions [''id'' \<mapsto> JStr ''1'', ''email'' \<mapsto> JStr ''b@x.com''] storedUser =
       (Inr r, s') \<and>
     s' ''user:email:a@x.com'' = Some (RStr ''1'') \<and>
     s' ''user:email:b@x.com'' = Some (RStr ''1'') \<and>
     getUserByEmail strictHost noOptions ''a@x.com'' s' = (Inr (Some u'), s') \<and>
     u' ''email'' = Some (JStr ''b@x.com'')"
proof -
  define u where "u = assignEntries (fromField strictHost) [''id'' \<mapsto> ''1'', ''name'' \<mapsto> ''A'', ''email'' \<mapsto> ''a@x.com'']"
  have p: "storedUser (getUserByEmailKey noOptions ''a@x.com'') = Some (RStr ''1'')"
    by (simp add: storedUser_def default_keys)
  have g: "getUserByEmail strictHost noOptions ''a@x.com'' storedUser = (Inr (Some u), storedUser)"
    by (simp add: getUserByEmail_def await_def client_get_def getUser_load
        loadObjectFromHash_cases default_keys storedUser_def u_def)
  have e: "u ''email'' = Some (JStr ''a@x.com'')"
    by (simp add: u_def fromField_def not_isDate_examples assignEntries_apply)
  have d: "''b@x.com'' \<noteq> ''a@x.com''" "''1'' \<noteq> ''email:'' @ ''b@x.com''"
    by simp_all
  have n: "\<not> isDate strictHost ''b@x.com''"
    by (simp add: isDate_def pattern_defs)
  from updateUser_keeps_old_pointer [OF p g e d]
  obtain r s' u' where r:
    "updateUser strictHost noOptions [''id'' \<mapsto> JStr ''1'', ''email'' \<mapsto> JStr ''b@x.com''] storedUser = (Inr r, s')"
    "s' (getUserByEmailKey noOptions ''a@x.com'') = Some (RStr ''1'')"
    "''b@x.com'' \<noteq> [] \<longrightarrow> s' (getUserByEmailKey noOptions ''b@x.com'') = Some (RStr ''1'')"
    "getUserByEmail strictHost noOptions ''a@x.com'' s' = (Inr (Some u'), s')"
    "\<not> isDate strictHost ''b@x.com'' \<longrightarrow> u' ''email'' = Some (JStr ''b@x.com'')"
    by blast
  show ?thesis
    by (rule exI [of _ r], rule exI [of _ s'], rule exI [of _ u'])
      (use r n in \<open>simp add: default_keys\<close>)
qed

lemma getSession_Some:
  assumes "getSession H opts tok s = (Inr (Some se), s')"
  shows "s' = s \<and> (\<exists>h. s (getSessionKey opts tok) = Some (RHash h) \<and> h \<noteq> Map.empty \<and>
     se = [''id'' \<mapsto> getField (assignEntries (fromField H) h) ''id''] ++ (assignEntries (fromField H) h))"
  using assms
  by (auto simp: getSession_def await_def ret_def loadObjectFromHash_cases
      split: option.splits rval.splits if_splits)

lemma setSession_ok:
  assumes "JDate None \<notin> ran session" "session \<noteq> Map.empty"
    and "\<forall>v. s (getSessionKey opts ident) \<noteq> Some (RStr v)"
    and "session ''__proto__'' = None"
  shows "setSession H opts ident session s =
     (Inr session,
      s(getSessionKey opts ident \<mapsto> RHash ((case s (getSessionKey opts ident) of
            Some (RHash h) \<Rightarrow> h | _ \<Rightarrow> Map.empty) ++ (map_option (toArg H \<circ> toField) \<circ> session)),
        getSessionByUserIdKey opts (ToString H (getField session ''userId'')) \<mapsto>
          RStr (getSessionKey opts ident)))"
  unfolding setSession_def Let_def
  by (subst await_Inr [where m = "setObjectAsHash H (getSessionKey opts ident) session",
        OF setObjectAsHash_ok [where s = s and key = "getSessionKey opts ident", OF assms]])
    (simp add: await_def client_set_def ret_def)

lemma session_valid:
  assumes "se = [''id'' \<mapsto> getField (assignEntries (fromField H) h) ''id''] ++ (assignEntries (fromField H) h)"
    and "JDate None \<notin> ran updates"
  shows "JDate None \<notin> ran (se ++ updates)"
  using assms fromField_valid [of H]
  by (auto simp: ran_def map_add_def getField_def assignEntries_apply split: option.splits if_splits)

lemma session_names:
  assumes "se = [''id'' \<mapsto> getField (assignEntries (fromField H) h) ''id''] ++ (assignEntries (fromField H) h)"
    and "updates ''__proto__'' = None"
  shows "(se ++ updates) ''__proto__'' = None"
  using assms by (simp add: map_add_def assignEntries_apply)

text \<open>
  Claim C6 fails as stated: on the empty store \<open>updateSession\<close> answers not-found and
  writes nothing, while \<open>updateUser\<close> writes the update record as the user's hash.
\<close>

theorem updateSession_differs_from_updateUser:
  "updateSession strictHost noOptions [''sessionToken'' \<mapsto> JStr ''tok1'', ''userId'' \<mapsto> JStr ''u1'']
      Map.empty = (Inr None, Map.empty) \<and>
   snd (updateUser strictHost noOptions [''id'' \<mapsto> JStr ''u1'', ''name'' \<mapsto> JStr ''B''] Map.empty)
      ''user:u1'' = Some (RHash [''id'' \<mapsto> ''u1'', ''name'' \<mapsto> ''B''])"
proof -
  have v: "JDate None \<notin> ran [''id'' \<mapsto> JStr ''u1'', ''name'' \<mapsto> JStr ''B'']"
    by (auto simp: ran_def split: if_splits)
  have 1: "updateSession strictHost noOptions [''sessionToken'' \<mapsto> JStr ''tok1'', ''userId'' \<mapsto> JStr ''u1'']
      Map.empty = (Inr None, Map.empty)"
    by (simp add: updateSession_def Let_def await_def ret_def getSession_def loadObjectFromHash_cases)
  have i: "ToString strictHost (getField [''id'' \<mapsto> JStr ''u1'', ''name'' \<mapsto> JStr ''B''] ''id'') = ''u1''"
    by (simp add: getField_def ToString_def)
  have 2: "updateUser strictHost noOptions [''id'' \<mapsto> JStr ''u1'', ''name'' \<mapsto> JStr ''B''] Map.empty =
      setUser strictHost noOptions ''u1'' [''id'' \<mapsto> JStr ''u1'', ''name'' \<mapsto> JStr ''B''] Map.empty"
    using updateUser_absent [where s = Map.empty and opts = noOptions and H = strictHost
        and updates = "[''id'' \<mapsto> JStr ''u1'', ''name'' \<mapsto> JStr ''B'']"]
    by (simp add: i)
  have 3: "snd (setUser strictHost noOptions ''u1'' [''id'' \<mapsto> JStr ''u1'', ''name'' \<mapsto> JStr ''B''] Map.empty)
      ''user:u1'' = Some (RHash [''id'' \<mapsto> ''u1'', ''name'' \<mapsto> ''B''])"
    by (subst setUser_ok [where s = Map.empty and opts = noOptions and ident = "''u1''", OF v])
      (simp_all add: default_keys truthy_def getField_def toArg_def toField_def ToString_def)
  from 1 2 3 show ?thesis by simp
qed

text \<open>
  Claim C6, amended. The update record holds no invalid date and has no field named
  \<^verbatim>\<open>__proto__\<close> (the codec leaves such a field out). When the prior record is read,
  \<open>updateSession\<close> follows the merge policy of \<open>updateUser\<close>: it reads the existing
  session by the token of the update record, merges the supplied fields over it, writes
  the merge into the session's hash and the session key into the session-by-user
  pointer, and returns the merge, as \<open>updateUser\<close> writes the merge over the stored user
  into the user's hash (and the email pointer) and returns it. When there is no prior
  record the two differ: \<open>updateSession\<close> answers not-found and writes nothing,
  \<open>updateUser\<close> writes the update record alone, when it has a field at all.
\<close>

theorem updateSession_policy:
  fixes H :: host and updates :: obj and s :: store
  defines "tok \<equiv> ToString H (getField updates ''sessionToken'')"
    and "U \<equiv> ToString H (getField updates ''id'')"
  defines "KS \<equiv> getSessionKey noOptions tok"
    and "KU \<equiv> getUserKey noOptions U"
  shows
  "(getSession H noOptions tok s = (Inr (Some se), s) \<and> JDate None \<notin> ran updates \<and>
    updates ''__proto__'' = None \<longrightarrow>
      (\<exists>h. s KS = Some (RHash h) \<and>
         updateSession H noOptions updates s =
           (Inr (Some (se ++ updates)),
            s(KS \<mapsto> RHash (h ++ (map_option (toArg H \<circ> toField) \<circ> (se ++ updates))),
              getSessionByUserIdKey noOptions (ToString H (getField (se ++ updates) ''userId'')) \<mapsto>
                RStr KS)))) \<and>
   (getUser H noOptions U s = (Inr (Some u), s) \<and> JDate None \<notin> ran updates \<and>
    updates ''__proto__'' = None \<and> updates \<noteq> Map.empty \<longrightarrow>
      (\<exists>h. s KU = Some (RHash h) \<and>
         updateUser H noOptions updates s =
           (Inr (u ++ updates),
            if truthy (getField (u ++ updates) ''email'')
            then s(KU \<mapsto> RHash (h ++ (map_option (toArg H \<circ> toField) \<circ> (u ++ updates))),
                   getUserByEmailKey noOptions (ToString H (getField (u ++ updates) ''email'')) \<mapsto>
                     RStr U)
            else s(KU \<mapsto> RHash (h ++ (map_option (toArg H \<circ> toField) \<circ> (u ++ updates))))))) \<and>
   (s KS = None \<longrightarrow> updateSession H noOptions updates s = (Inr None, s)) \<and>
   (s KU = None \<and> JDate None \<notin> ran updates \<and> updates ''__proto__'' = None \<and>
    updates \<noteq> Map.empty \<longrightarrow>
      updateUser H noOptions updates s =
        (Inr updates,
         if truthy (getField updates ''email'')
         then s(KU \<mapsto> RHash (map_option (toArg H \<circ> toField) \<circ> updates),
                getUserByEmailKey noOptions (ToString H (getField updates ''email'')) \<mapsto> RStr U)
         else s(KU \<mapsto> RHash (map_option (toArg H \<circ> toField) \<circ> updates))))"
proof (intro conjI impI)
  assume a: "getSession H noOptions tok s = (Inr (Some se), s) \<and> JDate None \<notin> ran updates \<and>
    updates ''__proto__'' = None"
  then have g: "getSession H noOptions tok s = (Inr (Some se), s)"
    by simp
  obtain h where h: "s KS = Some (RHash h)" "h \<noteq> Map.empty"
    "se = [''id'' \<mapsto> getField (assignEntries (fromField H) h) ''id''] ++ (assignEntries (fromField H) h)"
    using getSession_Some [OF g] unfolding KS_def by blast
  have v: "JDate None \<notin> ran (se ++ updates)"
    using session_valid [OF h(3)] a by simp
  have np: "(se ++ updates) ''__proto__'' = None"
    using session_names [where updates = updates and se = se, OF h(3)] a by simp
  have "se ''id'' \<noteq> None"
    by (simp add: h(3) map_add_def assignEntries_apply split: option.splits)
  then have "(se ++ updates) ''id'' \<noteq> None"
    by (simp add: map_add_def split: option.splits)
  then have ne: "se ++ updates \<noteq> Map.empty" by auto
  have ns: "\<forall>v. s (getSessionKey noOptions tok) \<noteq> Some (RStr v)"
    using h(1) by (simp add: KS_def)
  have "updateSession H noOptions updates s =
      await (setSession H noOptions tok (se ++ updates)) (\<lambda>r. ret (Some r)) s"
    unfolding updateSession_def Let_def tok_def [symmetric]
    by (subst await_Inr [where m = "getSession H noOptions tok", OF g]) simp
  then have "updateSession H noOptions updates s =
           (Inr (Some (se ++ updates)),
            s(KS \<mapsto> RHash (h ++ (map_option (toArg H \<circ> toField) \<circ> (se ++ updates))),
              getSessionByUserIdKey noOptions (ToString H (getField (se ++ updates) ''userId'')) \<mapsto>
                RStr KS))"
    using h(1)
    by (simp add: await_def ret_def KS_def
        setSession_ok [where s = s and opts = noOptions and ident = tok, OF v ne ns np])
  with h(1) show "\<exists>h. s KS = Some (RHash h) \<and>
         updateSession H noOptions updates s =
           (Inr (Some (se ++ updates)),
            s(KS \<mapsto> RHash (h ++ (map_option (toArg H \<circ> toField) \<circ> (se ++ updates))),
              getSessionByUserIdKey noOptions (ToString H (getField (se ++ updates) ''userId'')) \<mapsto>
                RStr KS))"
    by blast
next
  assume a: "getUser H noOptions U s = (Inr (Some u), s) \<and> JDate None \<notin> ran updates \<and>
    updates ''__proto__'' = None \<and> updates \<noteq> Map.empty"
  then have g: "getUser H noOptions U s = (Inr (Some u), s)"
    by simp
  obtain h where h: "s KU = Some (RHash h)" "h \<noteq> Map.empty"
    "u = assignEntries (fromField H) h"
    using g loadObjectFromHash_Some [of H KU s u s] by (auto simp: getUser_load KU_def)
  have v: "JDate None \<notin> ran (u ++ updates)"
    using merged_valid [OF h(3)] a by simp
  have np: "(u ++ updates) ''__proto__'' = None"
    using merged_names [where updates = updates and u = u, OF h(3)] a by simp
  obtain k0 v0 where "updates k0 = Some v0" using a by (auto simp: fun_eq_iff)
  then have "(u ++ updates) k0 \<noteq> None" by (simp add: map_add_def)
  then have ne: "u ++ updates \<noteq> Map.empty" by auto
  have ns: "\<forall>v. s (getUserKey noOptions U) \<noteq> Some (RStr v)"
    using h(1) by (simp add: KU_def)
  have "updateUser H noOptions updates s = setUser H noOptions U (u ++ updates) s"
    using updateUser_found [where updates = updates and H = H and opts = noOptions and s = s and u = u] a
    by (simp add: U_def)
  then have "updateUser H noOptions updates s =
           (Inr (u ++ updates),
            if truthy (getField (u ++ updates) ''email'')
            then s(KU \<mapsto> RHash (h ++ (map_option (toArg H \<circ> toField) \<circ> (u ++ updates))),
                   getUserByEmailKey noOptions (ToString H (getField (u ++ updates) ''email'')) \<mapsto>
                     RStr U)
            else s(KU \<mapsto> RHash (h ++ (map_option (toArg H \<circ> toField) \<circ> (u ++ updates)))))"
    using h(1)
    by (simp add: KU_def setUser_ok [where s = s and opts = noOptions and ident = U, OF v ne ns np])
  with h(1) show "\<exists>h. s KU = Some (RHash h) \<and>
         updateUser H noOptions updates s =
           (Inr (u ++ updates),
            if truthy (getField (u ++ updates) ''email'')
            then s(KU \<mapsto> RHash (h ++ (map_option (toArg H \<circ> toField) \<circ> (u ++ updates))),
                   getUserByEmailKey noOptions (ToString H (getField (u ++ updates) ''email'')) \<mapsto>
                     RStr U)
            else s(KU \<mapsto> RHash (h ++ (map_option (toArg H \<circ> toField) \<circ> (u ++ updates)))))"
    by blast
next
  assume "s KS = None"
  then show "updateSession H noOptions updates s = (Inr None, s)"
    by (simp add: updateSession_def Let_def await_def ret_def getSession_def
        loadObjectFromHash_cases KS_def tok_def)
next
  assume a: "s KU = None \<and> JDate None \<notin> ran updates \<and> updates ''__proto__'' = None \<and>
    updates \<noteq> Map.empty"
  then have n: "s (getUserKey noOptions U) = None" and v: "JDate None \<notin> ran updates"
    and ne: "updates \<noteq> Map.empty" and np: "updates ''__proto__'' = None"
    by (simp_all add: KU_def)
  have ns: "\<forall>v. s (getUserKey noOptions U) \<noteq> Some (RStr v)"
    using n by simp
  have "updateUser H noOptions updates s = setUser H noOptions U updates s"
    using updateUser_absent [where s = s and opts = noOptions and H = H and updates = updates] n
    by (simp add: U_def)
  then show "updateUser H noOptions updates s =
        (Inr updates,
         if truthy (getField updates ''email'')
         then s(KU \<mapsto> RHash (map_option (toArg H \<circ> toField) \<circ> updates),
                getUserByEmailKey noOptions (ToString H (getField updates ''email'')) \<mapsto> RStr U)
         else s(KU \<mapsto> RHash (map_option (toArg H \<circ> toField) \<circ> updates)))"
    using n
    by (simp add: KU_def setUser_ok [where s = s and opts = noOptions and ident = U, OF v ne ns np])
qed

theorem updateSession_policy_witness:
  "(\<exists>r s'. updateSession strictHost noOptions sessionUpdate sessionStore = (Inr (Some r), s') \<and>
      r ''userId'' = Some (JStr ''u1'') \<and>
      r ''expires'' = Some (JDate (Some 1641081600000)) \<and>
      s' ''session:user:u1'' = Some (RStr ''session:tok1'')) \<and>
   updateSession strictHost noOptions sessionUpdate Map.empty = (Inr None, Map.empty)"
proof -
  define dec where "dec = assignEntries (fromField strictHost)
      [''id'' \<mapsto> ''tok1'', ''sessionToken'' \<mapsto> ''tok1'', ''userId'' \<mapsto> ''u1'',
               ''expires'' \<mapsto> ''2022-01-01T00:00:00.000Z'']"
  define se where "se = [''id'' \<mapsto> getField dec ''id''] ++ dec"
  have t: "ToString strictHost (getField sessionUpdate ''sessionToken'') = ''tok1''"
    by (simp add: sessionUpdate_def getField_def ToString_def)
  have g: "getSession strictHost noOptions ''tok1'' sessionStore = (Inr (Some se), sessionStore)"
    by (simp add: getSession_def await_def ret_def loadObjectFromHash_cases default_keys
        sessionStore_def se_def dec_def)
  have v: "JDate None \<notin> ran sessionUpdate"
    by (auto simp: ran_def sessionUpdate_def split: if_splits)
  have np: "sessionUpdate ''__proto__'' = None"
    by (simp add: sessionUpdate_def)
  have n: "\<not> isDate strictHost ''u1''"
    by (rule not_isDate_examples)
  have su: "(se ++ sessionUpdate) ''userId'' = Some (JStr ''u1'')"
    "(se ++ sessionUpdate) ''expires'' = Some (JDate (Some 1641081600000))"
    using n by (simp_all add: se_def dec_def sessionUpdate_def map_add_def fromField_def assignEntries_apply)
  have e: "(Map.empty :: store) (getSessionKey noOptions ''tok1'') = None"
    by simp
  note th = updateSession_policy [where H = strictHost and updates = sessionUpdate, unfolded t]
  from th [where s = sessionStore and se = se] g v np
  obtain h where h: "updateSession strictHost noOptions sessionUpdate sessionStore =
           (Inr (Some (se ++ sessionUpdate)),
            sessionStore(getSessionKey noOptions ''tok1'' \<mapsto>
                RHash (h ++ (map_option (toArg strictHost \<circ> toField) \<circ> (se ++ sessionUpdate))),
              getSessionByUserIdKey noOptions
                (ToString strictHost (getField (se ++ sessionUpdate) ''userId'')) \<mapsto>
                RStr (getSessionKey noOptions ''tok1'')))"
    by blast
  have 1: "\<exists>r s'. updateSession strictHost noOptions sessionUpdate sessionStore = (Inr (Some r), s') \<and>
      r ''userId'' = Some (JStr ''u1'') \<and>
      r ''expires'' = Some (JDate (Some 1641081600000)) \<and>
      s' ''session:user:u1'' = Some (RStr ''session:tok1'')"
    unfolding h
    by (rule exI [of _ "se ++ sessionUpdate"], rule exI, intro conjI, rule refl)
      (simp_all add: su getField_def ToString_def default_keys)
  from th [where s = Map.empty] e
  have 2: "updateSession strictHost noOptions sessionUpdate Map.empty = (Inr None, Map.empty)"
    by blast
  from 1 2 show ?thesis by blast
qed

end
